theory Spec2Isabelle
  imports Complex_Main "HOL-Library.Sublist"
begin

section \<open>Data model\<close>

text \<open>
  The catalog UI works on plain JavaScript values. Identifiers are kept polymorphic
  (the backend sends numbers); they are compared with \<^verbatim>\<open>===\<close>, which on numbers other than
  NaN and on strings is equality. Text is \<^typ>\<open>string\<close>. Prices, ratings, scores and
  comparator results are JavaScript numbers, finite doubles, modelled by their values in
  \<^typ>\<open>real\<close>: comparisons of doubles are those of their values, and the difference of
  two doubles has the sign of the difference of their values. Sums, products and
  quotients of doubles are rounded; where the code computes one, the host's operation is
  a parameter. Time stamps are milliseconds, \<^typ>\<open>int\<close>.
\<close>

record 'i product =
  ident :: 'i
  name :: string
  brand :: string
  category :: string
  price :: real
  rating :: real

text \<open>The preference snapshot owned by \<^verbatim>\<open>App\<close> (\<^verbatim>\<open>useState\<close> in \<^verbatim>\<open>App\<close>).\<close>

record preferences =
  priceRange :: string
  categories :: "string list"
  brands :: "string list"
  minRating :: real

section \<open>Application shell: browsing history\<close>

text \<open>
  \<^verbatim>\<open>setBrowsingHistory(prev => [productId, ...prev.filter(id => id !== productId)].slice(0, 20))\<close>
\<close>

definition handleProductClick :: "'i \<Rightarrow> 'i list \<Rightarrow> 'i list" where
  "handleProductClick productId prev =
     take 20 (productId # filter (\<lambda>i. i \<noteq> productId) prev)"

text \<open>\<^verbatim>\<open>const handleClearHistory = () => setBrowsingHistory([])\<close>\<close>

definition handleClearHistory :: "'i list \<Rightarrow> 'i list" where
  "handleClearHistory prev = []"

section \<open>Preference model: toggles\<close>

text \<open>
  \<^verbatim>\<open>prev.includes(category) ? prev.filter(c => c !== category) : [...prev, category]\<close>;
  the brand toggle is the same function on the brand list.
\<close>

definition handleCategoryChange :: "string \<Rightarrow> string list \<Rightarrow> string list" where
  "handleCategoryChange c prev =
     (if c \<in> set prev then filter (\<lambda>x. x \<noteq> c) prev else prev @ [c])"

definition handleBrandChange :: "string \<Rightarrow> string list \<Rightarrow> string list" where
  "handleBrandChange b prev =
     (if b \<in> set prev then filter (\<lambda>x. x \<noteq> b) prev else prev @ [b])"

section \<open>Strings\<close>

text \<open>
  \<^verbatim>\<open>String.prototype.toLowerCase\<close> on the ASCII letters: an upper-case letter (code 65 to
  90) gets bit 5 set, which adds 32; every other character is kept. Case mappings outside
  ASCII are not modelled.
\<close>

definition toLowerCase_char :: "char \<Rightarrow> char" where
  "toLowerCase_char c =
     (let n = (of_char c :: nat) in
      if 65 \<le> n \<and> n \<le> 90
      then Char (digit0 c) (digit1 c) (digit2 c) (digit3 c) (digit4 c) True (digit6 c) (digit7 c)
      else c)"

definition toLowerCase :: "string \<Rightarrow> string" where
  "toLowerCase s = map toLowerCase_char s"

text \<open>\<^verbatim>\<open>s.includes(q)\<close>: \<open>q\<close> occurs in \<open>s\<close> as a contiguous run.\<close>

fun str_includes :: "string \<Rightarrow> string \<Rightarrow> bool" where
  "str_includes [] q = (q = [])"
| "str_includes (c # cs) q = (prefix q (c # cs) \<or> str_includes cs q)"

section \<open>Application shell: the catalog filter\<close>

text \<open>
  The callback of \<^verbatim>\<open>products.filter\<close> in the filter effect of \<^verbatim>\<open>App\<close>, one definition
  per local constant. The price range is compared with the four string literals; any
  other value of \<^verbatim>\<open>priceRange\<close> matches no product.
\<close>

definition matchesSearch :: "string \<Rightarrow> ('i, 'z) product_scheme \<Rightarrow> bool" where
  "matchesSearch searchQuery product \<longleftrightarrow>
     searchQuery = []
     \<or> str_includes (toLowerCase (name product)) (toLowerCase searchQuery)
     \<or> str_includes (toLowerCase (category product)) (toLowerCase searchQuery)
     \<or> str_includes (toLowerCase (brand product)) (toLowerCase searchQuery)"

definition matchesCategory :: "preferences \<Rightarrow> ('i, 'z) product_scheme \<Rightarrow> bool" where
  "matchesCategory userPreferences product \<longleftrightarrow>
     length (categories userPreferences) = 0
     \<or> category product \<in> set (categories userPreferences)"

definition matchesBrand :: "preferences \<Rightarrow> ('i, 'z) product_scheme \<Rightarrow> bool" where
  "matchesBrand userPreferences product \<longleftrightarrow>
     length (brands userPreferences) = 0
     \<or> brand product \<in> set (brands userPreferences)"

definition matchesPrice :: "preferences \<Rightarrow> ('i, 'z) product_scheme \<Rightarrow> bool" where
  "matchesPrice userPreferences product \<longleftrightarrow>
     priceRange userPreferences = ''all''
     \<or> (priceRange userPreferences = ''0-50'' \<and> price product \<le> 50)
     \<or> (priceRange userPreferences = ''50-100''
          \<and> price product > 50 \<and> price product \<le> 100)
     \<or> (priceRange userPreferences = ''100+'' \<and> price product > 100)"

definition matchesRating :: "preferences \<Rightarrow> ('i, 'z) product_scheme \<Rightarrow> bool" where
  "matchesRating userPreferences product \<longleftrightarrow>
     rating product \<ge> minRating userPreferences"

definition filterProducts ::
  "('i, 'z) product_scheme list \<Rightarrow> string \<Rightarrow> preferences \<Rightarrow> ('i, 'z) product_scheme list"
where
  "filterProducts products searchQuery userPreferences =
     filter (\<lambda>product.
        matchesSearch searchQuery product \<and> matchesCategory userPreferences product
        \<and> matchesBrand userPreferences product \<and> matchesPrice userPreferences product
        \<and> matchesRating userPreferences product) products"

section \<open>Recommendation display\<close>

text \<open>
  A recommendation as the backend sends it. The confidence score is a number of the
  host, a double; it is taken to be finite and is modelled by its value.
\<close>

record 'i recommendation =
  rec_product :: "'i product"
  explanation :: string
  confidence_score :: real

definition getConfidenceColor :: "real \<Rightarrow> string" where
  "getConfidenceColor score =
     (if score \<ge> 8 then ''#16a34a''
      else if score \<ge> 5 then ''#f59e0b''
      else ''#ef4444'')"

text \<open>
  The confidence section of one card: the number printed before \<^verbatim>\<open>/10\<close>, the number
  printed before \<^verbatim>\<open>%\<close> in the width of the fill, and its background colour. The width
  is \<^verbatim>\<open>rec.confidence_score * 10\<close>, a product of doubles. The doubles are a type of
  the host, \<open>'n\<close>, with two parameters: \<open>num\<close> gives the double of a given value, and
  \<open>mul\<close> is the host's multiplication.
\<close>

record 'n confidence_section =
  shown_score :: real
  fill_width :: 'n
  fill_backgroundColor :: string

definition confidenceSection ::
  "(real \<Rightarrow> 'n) \<Rightarrow> ('n \<Rightarrow> 'n \<Rightarrow> 'n) \<Rightarrow> 'i recommendation \<Rightarrow> 'n confidence_section"
where
  "confidenceSection num mul r =
     \<lparr>shown_score = confidence_score r,
      fill_width = mul (num (confidence_score r)) (num 10),
      fill_backgroundColor = getConfidenceColor (confidence_score r)\<rparr>"

text \<open>
  \<^verbatim>\<open>Recommendations\<close>: the loading text, the placeholder when there is nothing to show,
  or one card per recommendation, in the order given.
\<close>

datatype ('i, 'n) recommendations_view =
  LoadingText
  | NoRecommendationsText
  | Grid "('i recommendation \<times> 'n confidence_section) list"

definition Recommendations ::
  "(real \<Rightarrow> 'n) \<Rightarrow> ('n \<Rightarrow> 'n \<Rightarrow> 'n) \<Rightarrow> 'i recommendation list \<Rightarrow> bool
     \<Rightarrow> ('i, 'n) recommendations_view"
where
  "Recommendations num mul recs loading =
     (if loading then LoadingText
      else if length recs = 0 then NoRecommendationsText
      else Grid (map (\<lambda>r. (r, confidenceSection num mul r)) recs))"

text \<open>
  What is known of the doubles: the integers up to \<open>2\<^sup>5\<^sup>3\<close> in absolute value are
  doubles, different ones for different integers, and a product of two of them that is
  again such an integer is computed exactly.
\<close>

definition exact_on_safe_integers :: "(real \<Rightarrow> 'n) \<Rightarrow> ('n \<Rightarrow> 'n \<Rightarrow> 'n) \<Rightarrow> bool" where
  "exact_on_safe_integers num mul \<longleftrightarrow>
     (\<forall>a b :: int.
        \<bar>a\<bar> \<le> 9007199254740992 \<and> \<bar>b\<bar> \<le> 9007199254740992 \<and> \<bar>a * b\<bar> \<le> 9007199254740992
        \<longrightarrow> mul (num (of_int a)) (num (of_int b)) = num (of_int (a * b)))
     \<and> (\<forall>a b :: int.
        \<bar>a\<bar> \<le> 9007199254740992 \<and> \<bar>b\<bar> \<le> 9007199254740992
        \<and> num (of_int a) = num (of_int b) \<longrightarrow> a = b)"

text \<open>
  The clamping into the scale from 0 to 10 that the description of the display speaks
  of; the component has no such function, it is here for comparison with what the
  component computes.
\<close>

definition spec_clamped_score :: "real \<Rightarrow> real" where
  "spec_clamped_score x = max 0 (min 10 x)"

section \<open>History model\<close>

text \<open>An entry of the derived list: the product's fields and three more.\<close>

record 'i history_entry = "'i product" +
  viewedAt :: int
  isFavorite :: bool
  viewCount :: nat

text \<open>
  \<^verbatim>\<open>historyProducts\<close>: the callback of \<^verbatim>\<open>history.map\<close>, and the list without the
  \<^verbatim>\<open>null\<close>s. \<^verbatim>\<open>products.find\<close> gives the first product with the identifier; an
  identifier with none gives \<^verbatim>\<open>null\<close>, which \<^verbatim>\<open>.filter(Boolean)\<close> drops.
  \<^verbatim>\<open>timestamps.get(id) || Date.now()\<close> takes the clock when the stamp is missing or 0;
  the clock reading is the parameter \<open>now\<close>.
\<close>

definition history_entry_of ::
  "int \<Rightarrow> 'i list \<Rightarrow> 'i product list \<Rightarrow> ('i \<rightharpoonup> int) \<Rightarrow> 'i set \<Rightarrow> 'i
     \<Rightarrow> 'i history_entry option"
where
  "history_entry_of now history products timestamps favorites i =
     (case List.find (\<lambda>p. ident p = i) products of
        None \<Rightarrow> None
      | Some p \<Rightarrow>
          Some \<lparr>ident = ident p, name = name p, brand = brand p, category = category p,
                price = price p, rating = rating p,
                viewedAt = (case timestamps i of
                              None \<Rightarrow> now
                            | Some t \<Rightarrow> if t = 0 then now else t),
                isFavorite = (i \<in> favorites),
                viewCount = length (filter (\<lambda>histId. histId = i) history)\<rparr>)"

definition historyProducts ::
  "int \<Rightarrow> 'i list \<Rightarrow> 'i product list \<Rightarrow> ('i \<rightharpoonup> int) \<Rightarrow> 'i set \<Rightarrow> 'i history_entry list"
where
  "historyProducts now history products timestamps favorites =
     List.map_filter (history_entry_of now history products timestamps favorites) history"

subsection \<open>Search, filter and sort of the derived list\<close>

text \<open>
  \<^verbatim>\<open>Array.prototype.sort\<close> with a comparison function. ECMAScript requires the sort to
  be stable, and for a consistent comparison function the result is the one stable
  ordering of the elements by it, which insertion from the right computes: an element
  is put before the first element that it does not compare greater than.
\<close>

fun insert_by :: "('a \<Rightarrow> 'a \<Rightarrow> real) \<Rightarrow> 'a \<Rightarrow> 'a list \<Rightarrow> 'a list" where
  "insert_by cmp x [] = [x]"
| "insert_by cmp x (y # ys) =
     (if cmp x y \<le> 0 then x # y # ys else y # insert_by cmp x ys)"

definition array_sort :: "('a \<Rightarrow> 'a \<Rightarrow> real) \<Rightarrow> 'a list \<Rightarrow> 'a list" where
  "array_sort cmp xs = foldr (insert_by cmp) xs []"

text \<open>
  The comparison function of \<^verbatim>\<open>processedProducts\<close>, the \<^verbatim>\<open>switch\<close> on \<^verbatim>\<open>sortBy\<close>.
  \<^verbatim>\<open>String.prototype.localeCompare\<close> depends on the host's collation and is a parameter.
\<close>

definition compareEntries ::
  "(string \<Rightarrow> string \<Rightarrow> real) \<Rightarrow> string \<Rightarrow> 'i history_entry \<Rightarrow> 'i history_entry \<Rightarrow> real"
where
  "compareEntries localeCompare sortBy a b =
     (if sortBy = ''recent'' then real_of_int (viewedAt b - viewedAt a)
      else if sortBy = ''name'' then localeCompare (name a) (name b)
      else if sortBy = ''price'' then price a - price b
      else if sortBy = ''rating'' then rating b - rating a
      else 0)"

definition searchHistory :: "string \<Rightarrow> 'i history_entry list \<Rightarrow> 'i history_entry list" where
  "searchHistory searchQuery filtered =
     (if searchQuery \<noteq> [] then
        filter (\<lambda>p. str_includes (toLowerCase (name p)) (toLowerCase searchQuery)
                  \<or> str_includes (toLowerCase (brand p)) (toLowerCase searchQuery)
                  \<or> str_includes (toLowerCase (category p)) (toLowerCase searchQuery))
          filtered
      else filtered)"

definition filterHistory :: "string \<Rightarrow> 'i history_entry list \<Rightarrow> 'i history_entry list" where
  "filterHistory filterBy filtered =
     (if filterBy \<noteq> ''all'' then
        filter (\<lambda>p. if filterBy = ''favorites'' then isFavorite p else category p = filterBy)
          filtered
      else filtered)"

definition processedProducts ::
  "(string \<Rightarrow> string \<Rightarrow> real) \<Rightarrow> 'i history_entry list \<Rightarrow> string \<Rightarrow> string \<Rightarrow> string
     \<Rightarrow> 'i history_entry list" where
  "processedProducts localeCompare entries searchQuery filterBy sortBy =
     array_sort (compareEntries localeCompare sortBy)
       (filterHistory filterBy (searchHistory searchQuery entries))"

text \<open>
  A comparison function is consistent when it compares every element equal to itself,
  is antisymmetric in its sign, and its weak order is transitive.
\<close>

definition consistent_comparator :: "('a \<Rightarrow> 'a \<Rightarrow> real) \<Rightarrow> bool" where
  "consistent_comparator cmp \<longleftrightarrow>
     (\<forall>a. cmp a a = 0) \<and> (\<forall>a b. cmp a b < 0 \<longleftrightarrow> 0 < cmp b a)
     \<and> (\<forall>a b c. cmp a b \<le> 0 \<and> cmp b c \<le> 0 \<longrightarrow> cmp a c \<le> 0)"

subsection \<open>Insights\<close>

text \<open>
  The counting object of \<^verbatim>\<open>insights\<close> is a plain object \<^verbatim>\<open>{}\<close>: its own keys with
  their values, in the order in which the keys were created, over the members it
  inherits from \<^verbatim>\<open>Object.prototype\<close>. Those are the eleven functions listed here and the
  accessor \<^verbatim>\<open>__proto__\<close>.
\<close>

definition function_members :: "string list" where
  "function_members =
     [''constructor'', ''hasOwnProperty'', ''isPrototypeOf'', ''propertyIsEnumerable'',
      ''toLocaleString'', ''toString'', ''valueOf'', ''__defineGetter__'',
      ''__defineSetter__'', ''__lookupGetter__'', ''__lookupSetter__'']"

definition inherited_name :: "string \<Rightarrow> bool" where
  "inherited_name k \<longleftrightarrow> k = ''__proto__'' \<or> k \<in> set function_members"

text \<open>
  A value stored by \<^verbatim>\<open>acc[k] = (acc[k] || 0) + 1\<close> is a count, or, for a key that names
  an inherited function, a string: the function is truthy, and adding 1 to it appends
  the character 1 to its source text. \<open>Native k m\<close> is the text of the member \<open>k\<close>
  followed by \<open>m\<close> characters 1.
\<close>

datatype count_value = is_Num: Num (the_num: nat) | Native string nat

text \<open>
  The text of a built-in function begins with \<^verbatim>\<open>function\<close> and the function's name
  (the member \<^verbatim>\<open>constructor\<close> is the function \<^verbatim>\<open>Object\<close>); what follows the name differs
  between hosts in white space only.
\<close>

definition native_text :: "string \<Rightarrow> nat \<Rightarrow> string" where
  "native_text k m =
     ''function '' @ (if k = ''constructor'' then ''Object'' else k)
       @ ''() { [native code] }'' @ replicate m (CHR ''1'')"

text \<open>\<^verbatim>\<open>(v || 0) + 1\<close> for a value \<open>v\<close> that the object holds.\<close>

fun increment :: "count_value \<Rightarrow> count_value" where
  "increment (Num n) = Num (n + 1)"
| "increment (Native k m) = Native k (m + 1)"

text \<open>
  The assignment for a key other than \<^verbatim>\<open>__proto__\<close>: the value of a key that is there
  is replaced; a new key is created after the others, with the count 1, or with the
  string when the key names an inherited function.
\<close>

fun bump :: "(string \<times> count_value) list \<Rightarrow> string \<Rightarrow> (string \<times> count_value) list" where
  "bump [] k = [(k, if k \<in> set function_members then Native k 1 else Num (0 + 1))]"
| "bump ((k', v) # acc) k =
     (if k' = k then (k', increment v) # acc else (k', v) # bump acc k)"

text \<open>
  For the key \<^verbatim>\<open>__proto__\<close> the assignment calls the inherited setter, which ignores a
  value that is not an object: the object is left as it is.
\<close>

definition count_into :: "(string \<times> count_value) list \<Rightarrow> string \<Rightarrow> (string \<times> count_value) list"
where
  "count_into acc k = (if k = ''__proto__'' then acc else bump acc k)"

definition categoryCount :: "('i, 'z) product_scheme list \<Rightarrow> (string \<times> count_value) list"
where
  "categoryCount entries = foldl (\<lambda>acc p. count_into acc (category p)) [] entries"

definition brandCount :: "('i, 'z) product_scheme list \<Rightarrow> (string \<times> count_value) list"
where
  "brandCount entries = foldl (\<lambda>acc p. count_into acc (brand p)) [] entries"

text \<open>
  \<^verbatim>\<open>Object.entries\<close> lists the keys that are array indices first, in ascending numeric
  order, and then the other keys in the order of their creation. An array index is the
  decimal numeral, without a leading zero, of a number below \<open>2\<^sup>3\<^sup>2 - 1\<close>.
\<close>

definition is_digit :: "char \<Rightarrow> bool" where
  "is_digit c \<longleftrightarrow> 48 \<le> (of_char c :: nat) \<and> (of_char c :: nat) \<le> 57"

definition decimal_value :: "string \<Rightarrow> nat" where
  "decimal_value k = foldl (\<lambda>a c. 10 * a + (of_char c - 48)) 0 k"

definition is_array_index :: "string \<Rightarrow> bool" where
  "is_array_index k \<longleftrightarrow>
     k \<noteq> [] \<and> list_all is_digit k \<and> (k = ''0'' \<or> hd k \<noteq> CHR ''0'')
     \<and> decimal_value k < 4294967295"

definition Object_entries :: "(string \<times> 'v) list \<Rightarrow> (string \<times> 'v) list" where
  "Object_entries obj =
     sort_key (\<lambda>kv. decimal_value (fst kv)) (filter (\<lambda>kv. is_array_index (fst kv)) obj)
     @ filter (\<lambda>kv. \<not> is_array_index (fst kv)) obj"

text \<open>
  \<^verbatim>\<open>Array.prototype.reduce\<close> without an initial value: the first element starts the
  accumulator; on the empty array it throws a TypeError, here \<open>None\<close>.
\<close>

fun reduce_no_init :: "('a \<Rightarrow> 'a \<Rightarrow> 'a) \<Rightarrow> 'a list \<Rightarrow> 'a option" where
  "reduce_no_init f [] = None"
| "reduce_no_init f (x # xs) = Some (foldl f x xs)"

text \<open>
  The comparison \<^verbatim>\<open>a[1] > b[1]\<close>: of two counts, as numbers; of two strings, by their
  code units, the first difference deciding and a proper prefix being smaller; of a
  count and a string, false either way, since the string is not a numeral.
\<close>

fun string_gt :: "string \<Rightarrow> string \<Rightarrow> bool" where
  "string_gt [] t = False"
| "string_gt (c # s) [] = True"
| "string_gt (c # s) (d # t) =
     ((of_char c :: nat) > of_char d \<or> (c = d \<and> string_gt s t))"

fun value_gt :: "count_value \<Rightarrow> count_value \<Rightarrow> bool" where
  "value_gt (Num m) (Num n) = (m > n)"
| "value_gt (Native k m) (Native k' n) = string_gt (native_text k m) (native_text k' n)"
| "value_gt (Num m) (Native k' n) = False"
| "value_gt (Native k m) (Num n) = False"

text \<open>\<^verbatim>\<open>(a, b) => a[1] > b[1] ? a : b\<close>\<close>

definition pick_top ::
  "string \<times> count_value \<Rightarrow> string \<times> count_value \<Rightarrow> string \<times> count_value" where
  "pick_top a b = (if value_gt (snd a) (snd b) then a else b)"

definition topCategory :: "('i, 'z) product_scheme list \<Rightarrow> string option" where
  "topCategory entries =
     map_option fst (reduce_no_init pick_top (Object_entries (categoryCount entries)))"

definition topBrand :: "('i, 'z) product_scheme list \<Rightarrow> string option" where
  "topBrand entries =
     map_option fst (reduce_no_init pick_top (Object_entries (brandCount entries)))"

text \<open>
  The two averages are computed in doubles and printed with a fixed number of decimals.
  The doubles are a type of the host, \<open>'n\<close>; the double of a given value, the host's
  addition and division, and \<^verbatim>\<open>Number.prototype.toFixed\<close> are parameters.
\<close>

record 'n number_host =
  of_value :: "real \<Rightarrow> 'n"
  plus_d :: "'n \<Rightarrow> 'n \<Rightarrow> 'n"
  divide_d :: "'n \<Rightarrow> 'n \<Rightarrow> 'n"
  toFixed :: "'n \<Rightarrow> nat \<Rightarrow> string"

definition avgPrice :: "'n number_host \<Rightarrow> ('i, 'z) product_scheme list \<Rightarrow> 'n" where
  "avgPrice host entries =
     divide_d host
       (foldl (\<lambda>sum p. plus_d host sum (of_value host (price p))) (of_value host 0) entries)
       (of_value host (real (length entries)))"

definition avgRating :: "'n number_host \<Rightarrow> ('i, 'z) product_scheme list \<Rightarrow> 'n" where
  "avgRating host entries =
     divide_d host
       (foldl (\<lambda>sum p. plus_d host sum (of_value host (rating p))) (of_value host 0) entries)
       (of_value host (real (length entries)))"

text \<open>
  \<^verbatim>\<open>insights\<close>: nothing for the empty derived list, otherwise the four lines; \<open>None\<close>
  when one of the two reductions throws.
\<close>

definition insights ::
  "'n number_host \<Rightarrow> ('i, 'z) product_scheme list \<Rightarrow> string list option" where
  "insights host entries =
     (if length entries = 0 then Some []
      else case topCategory entries of
        None \<Rightarrow> None
      | Some c \<Rightarrow>
         (case topBrand entries of
            None \<Rightarrow> None
          | Some b \<Rightarrow>
             Some [''Most viewed category: '' @ c,
                   ''Favorite brand: '' @ b,
                   ''Average price: $'' @ toFixed host (avgPrice host entries) 2,
                   ''Average rating: '' @ toFixed host (avgRating host entries) 1 @ ''/5'']))"

subsection \<open>Component state and the handlers of the item buttons\<close>

text \<open>
  The properties \<^verbatim>\<open>history\<close> and \<^verbatim>\<open>products\<close> that the component receives, and its own
  state.
\<close>

record 'i browsing_history =
  history :: "'i list"
  products_h :: "'i product list"
  viewMode :: string
  sortBy :: string
  filterBy :: string
  searchQuery_h :: string
  favorites :: "'i set"
  timestamps :: "'i \<rightharpoonup> int"

text \<open>The derived list of a component.\<close>

definition derived_list :: "int \<Rightarrow> 'i browsing_history \<Rightarrow> 'i history_entry list" where
  "derived_list now s =
     historyProducts now (history s) (products_h s) (timestamps s) (favorites s)"

text \<open>Of the click event, whether \<^verbatim>\<open>stopPropagation\<close> was called on it.\<close>

record click_event =
  propagationStopped :: bool

definition handleFavoriteToggle ::
  "'i \<Rightarrow> click_event \<Rightarrow> 'i browsing_history \<Rightarrow> click_event \<times> 'i browsing_history" where
  "handleFavoriteToggle productId e s =
     (e\<lparr>propagationStopped := True\<rparr>,
      s\<lparr>favorites := (if productId \<in> favorites s then favorites s - {productId}
                       else insert productId (favorites s))\<rparr>)"

definition handleRemoveItem ::
  "'i \<Rightarrow> click_event \<Rightarrow> 'i browsing_history \<Rightarrow> click_event \<times> 'i browsing_history" where
  "handleRemoveItem productId e s =
     (e\<lparr>propagationStopped := True\<rparr>, s\<lparr>favorites := favorites s - {productId}\<rparr>)"

text \<open>
  The item's own \<^verbatim>\<open>onClick\<close>: \<^verbatim>\<open>onProductClick && onProductClick(product.id)\<close>. The
  callback, when the owner passes one, acts on the owner's history.
\<close>

definition item_onClick ::
  "('i \<Rightarrow> 'i list \<Rightarrow> 'i list) option \<Rightarrow> 'i \<Rightarrow> 'i browsing_history \<Rightarrow> 'i browsing_history"
where
  "item_onClick onProductClick productId s =
     (case onProductClick of
        None \<Rightarrow> s
      | Some f \<Rightarrow> s\<lparr>history := f productId (history s)\<rparr>)"

text \<open>
  A click on the remove button of an item: the button's handler runs, and the click
  reaches the enclosing item's \<^verbatim>\<open>onClick\<close> unless its propagation was stopped.
\<close>

definition click_remove_button ::
  "('i \<Rightarrow> 'i list \<Rightarrow> 'i list) option \<Rightarrow> 'i \<Rightarrow> 'i browsing_history \<Rightarrow> 'i browsing_history"
where
  "click_remove_button onProductClick productId s =
     (let (e, s') = handleRemoveItem productId \<lparr>propagationStopped = False\<rparr> s
      in if propagationStopped e then s' else item_onClick onProductClick productId s')"

section \<open>Application shell: requesting recommendations\<close>

text \<open>The notification object \<^verbatim>\<open>{ message, type }\<close>.\<close>

record notification_msg =
  message :: string
  type_n :: string

text \<open>
  What \<^verbatim>\<open>await getRecommendations(...)\<close> gives inside the \<^verbatim>\<open>try\<close>: it throws (network
  failure or a status that is not ok), or returns the parsed body, whose
  \<^verbatim>\<open>recommendations\<close> member may be missing.
\<close>

datatype 'i api_result = Failure string | Data "'i recommendation list option"

text \<open>
  The effects a handler has besides updating the state: the POST to
  \<^verbatim>\<open>/recommendations\<close> with its payload, a line on the error console, and a timer that
  clears the notification after the given number of milliseconds.
\<close>

datatype 'i effect =
  PostRecommendations preferences "'i list"
  | ConsoleError string
  | SetTimeout nat

record 'i app_state =
  products :: "'i product list"
  filteredProducts :: "'i product list"
  userPreferences :: preferences
  browsingHistory :: "'i list"
  recommendations :: "'i recommendation list"
  searchQuery :: string
  isLoading :: bool
  isLoadingProducts :: bool
  notification :: "notification_msg option"

definition showNotification ::
  "string \<Rightarrow> string \<Rightarrow> 'i app_state \<Rightarrow> 'i app_state \<times> 'i effect list" where
  "showNotification m t s =
     (s\<lparr>notification := Some \<lparr>message = m, type_n = t\<rparr>\<rparr>, [SetTimeout 3000])"

text \<open>
  \<^verbatim>\<open>handleGetRecommendations\<close>, with the server's answer to the request as a parameter.
  The guard returns before \<^verbatim>\<open>setIsLoading(true)\<close> and before the call; otherwise the
  request is sent, and the \<^verbatim>\<open>try\<close>/\<^verbatim>\<open>catch\<close>/\<^verbatim>\<open>finally\<close> follows.
\<close>

definition handleGetRecommendations ::
  "(preferences \<Rightarrow> 'i list \<Rightarrow> 'i api_result) \<Rightarrow> 'i app_state
     \<Rightarrow> 'i app_state \<times> 'i effect list" where
  "handleGetRecommendations server s =
     (if length (browsingHistory s) = 0 \<and> length (categories (userPreferences s)) = 0
      then showNotification ''Browse products or set preferences first.'' ''warning'' s
      else
        let s1 = s\<lparr>isLoading := True\<rparr>;
            request = PostRecommendations (userPreferences s) (browsingHistory s)
        in case server (userPreferences s) (browsingHistory s) of
             Data d \<Rightarrow>
               let s2 = s1\<lparr>recommendations := (case d of Some rs \<Rightarrow> rs | None \<Rightarrow> [])\<rparr>;
                   (s3, fx) = showNotification ''Recommendations updated!'' ''success'' s2
               in (s3\<lparr>isLoading := False\<rparr>, request # fx)
           | Failure e \<Rightarrow>
               let (s3, fx) = showNotification ''Failed to get recommendations.'' ''error'' s1
               in (s3\<lparr>isLoading := False\<rparr>,
                   request # ConsoleError ''getRecommendations error:''
                     # ConsoleError ''Error getting recommendations:'' # fx))"

section \<open>Browsing history: push, de-duplication and cap\<close>

lemma handleProductClick_Cons:
  "handleProductClick p h = p # take 19 (filter (\<lambda>i. i \<noteq> p) h)"
  by (simp add: handleProductClick_def numeral_eq_Suc)

lemma handleProductClick_distinct:
  "distinct h \<Longrightarrow> distinct (handleProductClick p h)"
proof -
  assume d: "distinct h"
  have "p \<notin> set (take 19 (filter (\<lambda>i. i \<noteq> p) h))"
    using in_set_takeD by fastforce
  moreover have "distinct (take 19 (filter (\<lambda>i. i \<noteq> p) h))"
    using d by simp
  ultimately show ?thesis
    by (simp add: handleProductClick_Cons)
qed

lemma handleProductClick_length: "length (handleProductClick p h) \<le> 20"
  by (simp add: handleProductClick_def)

lemma handleProductClick_twice:
  "handleProductClick p (handleProductClick p h) = handleProductClick p h"
proof -
  have "filter (\<lambda>i. i \<noteq> p) (take 19 (filter (\<lambda>i. i \<noteq> p) h))
        = take 19 (filter (\<lambda>i. i \<noteq> p) h)"
    by (rule filter_True) (auto dest: in_set_takeD)
  then show ?thesis by (simp add: handleProductClick_Cons)
qed

lemma handleProductClick_count: "count_list (handleProductClick p h) p = 1"
proof -
  have "p \<notin> set (take 19 (filter (\<lambda>i. i \<noteq> p) h))"
    by (auto dest: in_set_takeD)
  then show ?thesis by (simp add: handleProductClick_Cons count_list_0_iff)
qed

lemma handleProductClick_present:
  assumes "p \<in> set h" and "length h \<le> 20"
  shows "handleProductClick p h = p # filter (\<lambda>i. i \<noteq> p) h"
proof -
  have "length (filter (\<lambda>i. i \<noteq> p) h) < length h"
    using assms(1) by (simp add: length_filter_less)
  then show ?thesis using assms(2) by (simp add: handleProductClick_Cons)
qed

lemma handleProductClick_fresh_full:
  assumes "length h = 20" and "p \<notin> set h"
  shows "handleProductClick p h = p # butlast h"
proof -
  have "filter (\<lambda>i. i \<noteq> p) h = h"
    using assms(2) by (intro filter_True) auto
  moreover have "take 19 h = butlast h"
    using assms(1) by (simp add: butlast_conv_take)
  ultimately show ?thesis by (simp add: handleProductClick_Cons)
qed

text \<open>Pushing a run of pairwise different identifiers onto the empty history.\<close>

lemma push_all_distinct:
  "distinct xs \<Longrightarrow> foldl (\<lambda>h p. handleProductClick p h) [] xs = take 20 (rev xs)"
proof (induction xs rule: rev_induct)
  case Nil
  then show ?case by simp
next
  case (snoc x xs)
  then have x: "x \<notin> set xs"
    and IH: "foldl (\<lambda>h p. handleProductClick p h) [] xs = take 20 (rev xs)"
    by simp_all
  have f: "filter (\<lambda>i. i \<noteq> x) (take 20 (rev xs)) = take 20 (rev xs)"
    using x by (intro filter_True) (auto dest: in_set_takeD)
  have "foldl (\<lambda>h p. handleProductClick p h) [] (xs @ [x])
        = handleProductClick x (take 20 (rev xs))"
    by (simp add: IH)
  also have "\<dots> = x # take 19 (take 20 (rev xs))"
    by (simp only: handleProductClick_Cons f)
  also have "\<dots> = take 20 (rev (xs @ [x]))"
    by (simp add: numeral_eq_Suc min_def)
  finally show ?case .
qed

text \<open>
  Claim C1. Whatever the current history, a click puts the identifier at position 0 and
  leaves exactly one copy of it; when the identifier was already present (history within
  the cap) the other entries keep their order and nothing is added; clicking the same
  identifier twice in succession is the same as clicking it once, and from the empty
  history gives the one-element history. Pushing an identifier that is not in a full
  history of 20 different identifiers drops the last (oldest) one and keeps the length
  at 20; pushing 21 pairwise different identifiers from the empty history leaves the 20
  most recent, most recent first, without the first one pushed.
\<close>

theorem handleProductClick_dedup_and_cap:
  "handleProductClick p h ! 0 = p
   \<and> count_list (handleProductClick p h) p = 1
   \<and> (p \<in> set h \<and> length h \<le> 20 \<longrightarrow>
        handleProductClick p h = p # filter (\<lambda>i. i \<noteq> p) h
        \<and> set (handleProductClick p h) = set h)
   \<and> handleProductClick p (handleProductClick p h) = handleProductClick p h
   \<and> handleProductClick p (handleProductClick p []) = [p]
   \<and> (distinct h \<and> length h = 20 \<and> p \<notin> set h \<longrightarrow>
        handleProductClick p h = p # butlast h
        \<and> length (handleProductClick p h) = 20
        \<and> last h \<notin> set (handleProductClick p h))
   \<and> (distinct xs \<and> length xs = 21 \<longrightarrow>
        foldl (\<lambda>h p. handleProductClick p h) [] xs = take 20 (rev xs)
        \<and> length (foldl (\<lambda>h p. handleProductClick p h) [] xs) = 20
        \<and> hd xs \<notin> set (foldl (\<lambda>h p. handleProductClick p h) [] xs))"
proof -
  have front: "handleProductClick p h ! 0 = p"
    by (simp add: handleProductClick_Cons)
  have present: "handleProductClick p h = p # filter (\<lambda>i. i \<noteq> p) h
                 \<and> set (handleProductClick p h) = set h"
    if "p \<in> set h" "length h \<le> 20"
  proof -
    have e: "handleProductClick p h = p # filter (\<lambda>i. i \<noteq> p) h"
      using that by (rule handleProductClick_present)
    have "set (p # filter (\<lambda>i. i \<noteq> p) h) = set h"
      using that(1) by auto
    with e show ?thesis by simp
  qed
  have once: "handleProductClick p (handleProductClick p []) = [p]"
    by (simp add: handleProductClick_def)
  have full: "handleProductClick p h = p # butlast h
              \<and> length (handleProductClick p h) = 20
              \<and> last h \<notin> set (handleProductClick p h)"
    if d: "distinct h" and l: "length h = 20" and n: "p \<notin> set h"
  proof -
    have e: "handleProductClick p h = p # butlast h"
      using l n by (rule handleProductClick_fresh_full)
    have ne: "h \<noteq> []" using l by auto
    then have h: "h = butlast h @ [last h]" by simp
    have "distinct (butlast h @ [last h])" using d h by simp
    then have "last h \<notin> set (butlast h)" by simp
    moreover have "last h \<noteq> p" using n ne last_in_set by metis
    ultimately show ?thesis using e l by simp
  qed
  have run: "foldl (\<lambda>h p. handleProductClick p h) [] xs = take 20 (rev xs)
             \<and> length (foldl (\<lambda>h p. handleProductClick p h) [] xs) = 20
             \<and> hd xs \<notin> set (foldl (\<lambda>h p. handleProductClick p h) [] xs)"
    if d: "distinct xs" and l: "length xs = 21"
  proof -
    have e: "foldl (\<lambda>h p. handleProductClick p h) [] xs = take 20 (rev xs)"
      using d by (rule push_all_distinct)
    obtain y ys where xs: "xs = y # ys" using l by (cases xs) auto
    have "take 20 (rev xs) = rev ys" using l xs by simp
    moreover have "y \<notin> set ys" using d xs by simp
    ultimately show ?thesis using e l xs by simp
  qed
  show ?thesis
    using front handleProductClick_count [of p h] present
      handleProductClick_twice [of p h] once full run
    by blast
qed

theorem handleProductClick_dedup_and_cap_witness:
  "handleProductClick (3::nat) [1, 2, 3] = [3, 1, 2]
   \<and> handleProductClick (21::nat)
        [20, 19, 18, 17, 16, 15, 14, 13, 12, 11, 10, 9, 8, 7, 6, 5, 4, 3, 2, 1]
      = [21, 20, 19, 18, 17, 16, 15, 14, 13, 12, 11, 10, 9, 8, 7, 6, 5, 4, 3, 2]
   \<and> foldl (\<lambda>h p. handleProductClick p h) []
        [1, 2, 3, 4, 5, 6, 7, 8, 9, 10, 11, 12, 13, 14, 15, 16, 17, 18, 19, 20, 21::nat]
      = [21, 20, 19, 18, 17, 16, 15, 14, 13, 12, 11, 10, 9, 8, 7, 6, 5, 4, 3, 2]"
proof -
  let ?h = "[20, 19, 18, 17, 16, 15, 14, 13, 12, 11, 10, 9, 8, 7, 6, 5, 4, 3, 2, 1::nat]"
  let ?xs = "[1, 2, 3, 4, 5, 6, 7, 8, 9, 10, 11, 12, 13, 14, 15, 16, 17, 18, 19, 20, 21::nat]"
  have h1: "(3::nat) \<in> set [1, 2, 3] \<and> length [1, 2, 3::nat] \<le> 20"
    by simp
  have h2: "distinct ?h \<and> length ?h = 20 \<and> 21 \<notin> set ?h"
    by simp
  have h3: "distinct ?xs \<and> length ?xs = 21"
    by simp
  have "handleProductClick (3::nat) [1, 2, 3] = 3 # filter (\<lambda>i. i \<noteq> 3) [1, 2, 3]"
    using handleProductClick_dedup_and_cap [of "3::nat" "[1, 2, 3]" "[]"] h1 by blast
  then have a: "handleProductClick (3::nat) [1, 2, 3] = [3, 1, 2]"
    by simp
  have "handleProductClick 21 ?h = 21 # butlast ?h"
    using handleProductClick_dedup_and_cap [of "21::nat" ?h "[]"] h2 by blast
  then have b: "handleProductClick 21 ?h
      = [21, 20, 19, 18, 17, 16, 15, 14, 13, 12, 11, 10, 9, 8, 7, 6, 5, 4, 3, 2]"
    by simp
  have "foldl (\<lambda>h p. handleProductClick p h) [] ?xs = take 20 (rev ?xs)"
    using handleProductClick_dedup_and_cap [of "0::nat" "[]" ?xs] h3 by blast
  then have c: "foldl (\<lambda>h p. handleProductClick p h) [] ?xs
      = [21, 20, 19, 18, 17, 16, 15, 14, 13, 12, 11, 10, 9, 8, 7, 6, 5, 4, 3, 2]"
    by simp
  from a b c show ?thesis by blast
qed

section \<open>Preference toggles\<close>

text \<open>
  Claim C5. Toggling a category twice gives a selection with exactly the elements of
  the one started from, and one toggle is the symmetric difference with the singleton:
  the category is added when absent and removed when present.
\<close>

theorem handleCategoryChange_involution:
  "set (handleCategoryChange c (handleCategoryChange c S)) = set S
   \<and> set (handleCategoryChange c S) = (set S - {c}) \<union> ({c} - set S)"
  by (auto simp: handleCategoryChange_def)

theorem handleCategoryChange_involution_witness:
  "set (handleCategoryChange ''Shoes'' (handleCategoryChange ''Shoes'' [''Hats'', ''Shoes'']))
     = {''Hats'', ''Shoes''}
   \<and> handleCategoryChange ''Shoes'' [''Hats'', ''Shoes''] = [''Hats'']
   \<and> handleCategoryChange ''Shoes'' [''Hats''] = [''Hats'', ''Shoes'']"
  using handleCategoryChange_involution [of "''Shoes''" "[''Hats'', ''Shoes'']"]
  by (simp add: handleCategoryChange_def)

section \<open>Catalog filter\<close>

text \<open>\<^const>\<open>str_includes\<close> is the contiguous-sublist relation of the library.\<close>

lemma str_includes_sublist: "str_includes s q = sublist q s"
  by (induction s) (auto simp: sublist_Cons_right)

text \<open>
  With no search text, no category and no brand selected, the range \<^verbatim>\<open>'all'\<close> and the
  rating floor 0, the only test left is \<^verbatim>\<open>product.rating >= 0\<close>: the list comes back
  unchanged exactly when no rating in it is below 0.
\<close>

lemma filterProducts_unconstrained_iff:
  "filterProducts P ''''
     \<lparr>priceRange = ''all'', categories = [], brands = [], minRating = 0\<rparr> = P
   \<longleftrightarrow> (\<forall>p\<in>set P. 0 \<le> rating p)"
  by (simp add: filterProducts_def matchesSearch_def matchesCategory_def matchesBrand_def
        matchesPrice_def matchesRating_def filter_id_conv)

text \<open>
  Claim C3. For every list of products (whose ratings, as the data model has them, are
  not below 0), the filter with empty search text, no selected categories, no selected
  brands, price range \<^verbatim>\<open>'all'\<close> and minimum rating 0 returns the list itself, in its
  order.
\<close>

theorem filterProducts_unconstrained:
  "\<forall>p\<in>set P. 0 \<le> rating p \<Longrightarrow>
   filterProducts P ''''
     \<lparr>priceRange = ''all'', categories = [], brands = [], minRating = 0\<rparr> = P"
  by (simp add: filterProducts_def matchesSearch_def matchesCategory_def matchesBrand_def
        matchesPrice_def matchesRating_def)

theorem filterProducts_unconstrained_witness:
  "filterProducts
     [\<lparr>ident = 1::nat, name = ''Runner'', brand = ''X'', category = ''Shoes'',
        price = 30, rating = 4\<rparr>,
      \<lparr>ident = 2, name = ''Cap'', brand = ''Y'', category = ''Hats'',
        price = 120, rating = 0\<rparr>]
     '''' \<lparr>priceRange = ''all'', categories = [], brands = [], minRating = 0\<rparr>
   = [\<lparr>ident = 1::nat, name = ''Runner'', brand = ''X'', category = ''Shoes'',
        price = 30, rating = 4\<rparr>,
      \<lparr>ident = 2, name = ''Cap'', brand = ''Y'', category = ''Hats'',
        price = 120, rating = 0\<rparr>]"
  using filterProducts_unconstrained
    [of "[\<lparr>ident = 1::nat, name = ''Runner'', brand = ''X'', category = ''Shoes'',
        price = 30, rating = 4\<rparr>,
      \<lparr>ident = 2, name = ''Cap'', brand = ''Y'', category = ''Hats'',
        price = 120, rating = 0\<rparr>]"]
  by simp

text \<open>
  Claim C4. The single product with identifier 1, price 30, category Shoes, brand X and
  rating 4 (whatever its name) passes the filter with price range \<^verbatim>\<open>'0-50'\<close> and no other
  constraint, and the same filter with price range \<^verbatim>\<open>'50-100'\<close> returns the empty list.
  A product is in the bucket \<^verbatim>\<open>'0-50'\<close> exactly when its price is at most 50, and in the
  bucket \<^verbatim>\<open>'50-100'\<close> exactly when its price is above 50 and at most 100.
\<close>

theorem filterProducts_price_bucket_scenario:
  "filterProducts
     [\<lparr>ident = 1::nat, name = n, brand = ''X'', category = ''Shoes'', price = 30, rating = 4\<rparr>]
     '''' \<lparr>priceRange = ''0-50'', categories = [], brands = [], minRating = 0\<rparr>
   = [\<lparr>ident = 1::nat, name = n, brand = ''X'', category = ''Shoes'', price = 30, rating = 4\<rparr>]
   \<and> filterProducts
     [\<lparr>ident = 1::nat, name = n, brand = ''X'', category = ''Shoes'', price = 30, rating = 4\<rparr>]
     '''' \<lparr>priceRange = ''50-100'', categories = [], brands = [], minRating = 0\<rparr>
   = []
   \<and> (matchesPrice \<lparr>priceRange = ''0-50'', categories = cs, brands = bs, minRating = r\<rparr> p
        \<longleftrightarrow> price p \<le> 50)
   \<and> (matchesPrice \<lparr>priceRange = ''50-100'', categories = cs, brands = bs, minRating = r\<rparr> p
        \<longleftrightarrow> 50 < price p \<and> price p \<le> 100)"
  by (simp add: filterProducts_def matchesSearch_def matchesCategory_def matchesBrand_def
        matchesPrice_def matchesRating_def)

theorem filterProducts_price_bucket_scenario_witness:
  "filterProducts
     [\<lparr>ident = 1::nat, name = ''Runner'', brand = ''X'', category = ''Shoes'',
        price = 30, rating = 4\<rparr>]
     '''' \<lparr>priceRange = ''50-100'', categories = [], brands = [], minRating = 0\<rparr> = []
   \<and> matchesPrice \<lparr>priceRange = ''50-100'', categories = [], brands = [], minRating = 0\<rparr>
        \<lparr>ident = 2::nat, name = ''Boot'', brand = ''X'', category = ''Shoes'',
          price = 100, rating = 4\<rparr>
   \<and> \<not> matchesPrice \<lparr>priceRange = ''50-100'', categories = [], brands = [], minRating = 0\<rparr>
        \<lparr>ident = 3::nat, name = ''Sock'', brand = ''X'', category = ''Shoes'',
          price = 50, rating = 4\<rparr>"
  using filterProducts_price_bucket_scenario [of "''Runner''" "[]" "[]" 0
      "\<lparr>ident = 2::nat, name = ''Boot'', brand = ''X'', category = ''Shoes'',
        price = 100, rating = 4\<rparr>"]
    filterProducts_price_bucket_scenario [of "''Runner''" "[]" "[]" 0
      "\<lparr>ident = 3::nat, name = ''Sock'', brand = ''X'', category = ''Shoes'',
        price = 50, rating = 4\<rparr>"]
  by simp

section \<open>Requesting recommendations\<close>

text \<open>
  Claim C2. When the browsing history and the selected categories are both empty, the
  handler sends no request, leaves the recommendation list as it is, and sets a
  notification of type warning (the state changes in nothing else, and the only effect
  is the timer that clears the notification). In every other state the request, with the
  current preferences and history, is the first effect, and it is sent once.
\<close>

theorem handleGetRecommendations_guard:
  "(browsingHistory s = [] \<and> categories (userPreferences s) = [] \<longrightarrow>
      handleGetRecommendations server s
        = (s\<lparr>notification :=
               Some \<lparr>message = ''Browse products or set preferences first.'',
                     type_n = ''warning''\<rparr>\<rparr>,
           [SetTimeout 3000])
      \<and> (\<forall>q h. PostRecommendations q h \<notin> set (snd (handleGetRecommendations server s)))
      \<and> recommendations (fst (handleGetRecommendations server s)) = recommendations s
      \<and> map_option type_n (notification (fst (handleGetRecommendations server s)))
          = Some ''warning'')
   \<and> (\<not> (browsingHistory s = [] \<and> categories (userPreferences s) = []) \<longrightarrow>
      hd (snd (handleGetRecommendations server s))
        = PostRecommendations (userPreferences s) (browsingHistory s)
      \<and> length (filter (\<lambda>e. \<exists>q h. e = PostRecommendations q h)
                  (snd (handleGetRecommendations server s))) = 1)"
  by (auto simp: handleGetRecommendations_def showNotification_def Let_def
        split: api_result.splits)

theorem handleGetRecommendations_guard_witness:
  "snd (handleGetRecommendations (\<lambda>q h. Data (Some []))
      \<lparr>products = [], filteredProducts = [],
       userPreferences = \<lparr>priceRange = ''all'', categories = [], brands = [], minRating = 0\<rparr>,
       browsingHistory = ([] :: nat list), recommendations = [], searchQuery = '''',
       isLoading = False, isLoadingProducts = False, notification = None\<rparr>)
     = [SetTimeout 3000]
   \<and> hd (snd (handleGetRecommendations (\<lambda>q h. Data (Some []))
      \<lparr>products = [], filteredProducts = [],
       userPreferences = \<lparr>priceRange = ''all'', categories = [], brands = [], minRating = 0\<rparr>,
       browsingHistory = [7::nat], recommendations = [], searchQuery = '''',
       isLoading = False, isLoadingProducts = False, notification = None\<rparr>))
     = PostRecommendations
         \<lparr>priceRange = ''all'', categories = [], brands = [], minRating = 0\<rparr> [7]"
  using handleGetRecommendations_guard [of
      "\<lparr>products = [], filteredProducts = [],
       userPreferences = \<lparr>priceRange = ''all'', categories = [], brands = [], minRating = 0\<rparr>,
       browsingHistory = ([] :: nat list), recommendations = [], searchQuery = '''',
       isLoading = False, isLoadingProducts = False, notification = None\<rparr>"
      "\<lambda>q h. Data (Some [])"]
    handleGetRecommendations_guard [of
      "\<lparr>products = [], filteredProducts = [],
       userPreferences = \<lparr>priceRange = ''all'', categories = [], brands = [], minRating = 0\<rparr>,
       browsingHistory = [7::nat], recommendations = [], searchQuery = '''',
       isLoading = False, isLoadingProducts = False, notification = None\<rparr>"
      "\<lambda>q h. Data (Some [])"]
  by simp

section \<open>Confidence display\<close>

lemma getConfidenceColor_cases:
  "(getConfidenceColor x = ''#16a34a'' \<longleftrightarrow> x \<ge> 8)
   \<and> (getConfidenceColor x = ''#f59e0b'' \<longleftrightarrow> 5 \<le> x \<and> x < 8)
   \<and> (getConfidenceColor x = ''#ef4444'' \<longleftrightarrow> x < 5)"
  by (simp add: getConfidenceColor_def)

lemma getConfidenceColor_clamped:
  "getConfidenceColor (spec_clamped_score x) = getConfidenceColor x"
  by (auto simp: getConfidenceColor_def spec_clamped_score_def)

lemma exact_times_ten:
  assumes e: "exact_on_safe_integers num mul" and n: "\<bar>n\<bar> \<le> 900719925474099"
  shows "mul (num (of_int n)) (num 10) = num (of_int (n * 10))"
proof -
  have "\<bar>n\<bar> \<le> 9007199254740992 \<and> \<bar>10 :: int\<bar> \<le> 9007199254740992
        \<and> \<bar>n * 10\<bar> \<le> 9007199254740992"
    using n by (simp add: abs_mult)
  then have "mul (num (of_int n)) (num (of_int 10)) = num (of_int (n * 10))"
    using e unfolding exact_on_safe_integers_def by blast
  then show ?thesis by simp
qed

lemma safe_integers_distinct:
  assumes e: "exact_on_safe_integers num mul"
    and a: "\<bar>a\<bar> \<le> 9007199254740992" and b: "\<bar>b\<bar> \<le> 9007199254740992"
    and ab: "a \<noteq> b"
  shows "num (of_int a) \<noteq> num (of_int b)"
  using assms unfolding exact_on_safe_integers_def by blast

text \<open>
  Claim C8, as the component has it. The number shown is the raw score. The width of the
  fill is the product of the raw score and 10, with no clamping: for an integer score
  whose tenfold is exact in doubles (at most 900719925474099 in absolute value) it is
  ten times the score, and when such a score is outside the scale from 0 to 10 it is not
  the width that the clamped score would give. The colour is computed from the raw
  score (green exactly from 8 up, yellow exactly from 5 up to below 8, red exactly below
  5), which is the colour of the score clamped into the scale.
\<close>

theorem confidenceSection_width_unclamped:
  "shown_score (confidenceSection num mul r) = confidence_score r
   \<and> fill_width (confidenceSection num mul r) = mul (num (confidence_score r)) (num 10)
   \<and> fill_backgroundColor (confidenceSection num mul r)
       = getConfidenceColor (spec_clamped_score (confidence_score r))
   \<and> (getConfidenceColor x = ''#16a34a'' \<longleftrightarrow> x \<ge> 8)
   \<and> (getConfidenceColor x = ''#f59e0b'' \<longleftrightarrow> 5 \<le> x \<and> x < 8)
   \<and> (getConfidenceColor x = ''#ef4444'' \<longleftrightarrow> x < 5)
   \<and> (exact_on_safe_integers num mul \<and> confidence_score r = of_int n
        \<and> \<bar>n\<bar> \<le> 900719925474099 \<longrightarrow>
        fill_width (confidenceSection num mul r) = num (of_int (n * 10))
        \<and> (n < 0 \<or> 10 < n \<longrightarrow>
             fill_width (confidenceSection num mul r)
               \<noteq> mul (num (spec_clamped_score (confidence_score r))) (num 10)))"
proof -
  have shown: "shown_score (confidenceSection num mul r) = confidence_score r"
    and width: "fill_width (confidenceSection num mul r)
                = mul (num (confidence_score r)) (num 10)"
    by (simp_all add: confidenceSection_def)
  have colour: "fill_backgroundColor (confidenceSection num mul r)
                = getConfidenceColor (spec_clamped_score (confidence_score r))"
    by (simp add: confidenceSection_def getConfidenceColor_clamped)
  have raw: "fill_width (confidenceSection num mul r) = num (of_int (n * 10))
             \<and> (n < 0 \<or> 10 < n \<longrightarrow>
                  fill_width (confidenceSection num mul r)
                    \<noteq> mul (num (spec_clamped_score (confidence_score r))) (num 10))"
    if e: "exact_on_safe_integers num mul" and s: "confidence_score r = of_int n"
      and b: "\<bar>n\<bar> \<le> 900719925474099"
  proof -
    have w: "fill_width (confidenceSection num mul r) = num (of_int (n * 10))"
      using exact_times_ten [OF e b] by (simp add: width s)
    have c: "spec_clamped_score (confidence_score r) = of_int (max 0 (min 10 n))"
      by (simp add: spec_clamped_score_def s)
    have "\<bar>max 0 (min 10 n)\<bar> \<le> 900719925474099" by simp
    from exact_times_ten [OF e this]
    have cw: "mul (num (spec_clamped_score (confidence_score r))) (num 10)
              = num (of_int (max 0 (min 10 n) * 10))"
      by (simp only: c)
    have d: "num (of_int (n * 10)) \<noteq> num (of_int (max 0 (min 10 n) * 10))"
      if out: "n < 0 \<or> 10 < n"
    proof (rule safe_integers_distinct [OF e])
      show "\<bar>n * 10\<bar> \<le> 9007199254740992" using b by (simp add: abs_mult)
      show "\<bar>max 0 (min 10 n) * 10\<bar> \<le> 9007199254740992" by simp
      show "n * 10 \<noteq> max 0 (min 10 n) * 10" using out by auto
    qed
    show ?thesis using w cw d by simp
  qed
  show ?thesis
    using shown width colour getConfidenceColor_cases [of x] raw by blast
qed

theorem confidenceSection_width_unclamped_witness:
  "fill_width (confidenceSection id times
      \<lparr>rec_product = \<lparr>ident = 1::nat, name = ''Runner'', brand = ''X'', category = ''Shoes'',
                       price = 30, rating = 4\<rparr>,
       explanation = ''similar to viewed'', confidence_score = - 3\<rparr>) = (- 30 :: real)
   \<and> fill_backgroundColor (confidenceSection id times
      \<lparr>rec_product = \<lparr>ident = 1::nat, name = ''Runner'', brand = ''X'', category = ''Shoes'',
                       price = 30, rating = 4\<rparr>,
       explanation = ''similar to viewed'', confidence_score = - 3\<rparr>) = ''#ef4444''
   \<and> times (id (spec_clamped_score (- 3))) (id 10) = (0 :: real)"
proof -
  let ?r = "\<lparr>rec_product = \<lparr>ident = 1::nat, name = ''Runner'', brand = ''X'',
                             category = ''Shoes'', price = 30, rating = 4\<rparr>,
             explanation = ''similar to viewed'', confidence_score = - 3\<rparr>"
  note t = confidenceSection_width_unclamped [of id times ?r "- 3" "- 3"]
  have h: "exact_on_safe_integers (id :: real \<Rightarrow> real) times
           \<and> confidence_score ?r = of_int (- 3)
           \<and> \<bar>- 3 :: int\<bar> \<le> 900719925474099"
    by (simp add: exact_on_safe_integers_def)
  have w: "fill_width (confidenceSection id times ?r) = id (of_int (- 3 * 10) :: real)"
    using t h by blast
  have c: "fill_backgroundColor (confidenceSection id times ?r)
           = getConfidenceColor (spec_clamped_score (confidence_score ?r))"
    using t by blast
  have "fill_width (confidenceSection id times ?r) = (- 30 :: real)"
    using w by simp
  moreover have "fill_backgroundColor (confidenceSection id times ?r) = ''#ef4444''"
    using c by (simp add: spec_clamped_score_def getConfidenceColor_def)
  moreover have "times (id (spec_clamped_score (- 3))) (id 10) = (0 :: real)"
    by (simp add: spec_clamped_score_def)
  ultimately show ?thesis by blast
qed

text \<open>
  The claim as stated has the width computed from the clamped score: for the score 15
  that would be 100, and the component gives 150 (the product of 15 and 10 is exact, so
  the reals with their multiplication stand for the doubles of the host).
\<close>

theorem confidenceSection_width_counterexample:
  "fill_width (confidenceSection id times
      \<lparr>rec_product = \<lparr>ident = 1::nat, name = ''Runner'', brand = ''X'', category = ''Shoes'',
                       price = 30, rating = 4\<rparr>,
       explanation = ''similar to viewed'', confidence_score = 15\<rparr>) = (150 :: real)
   \<and> times (id (spec_clamped_score 15)) (id 10) = (100 :: real)"
  by (simp add: confidenceSection_def spec_clamped_score_def)

section \<open>The derived history list\<close>

lemma history_entry_of_Some:
  assumes "history_entry_of now h ps ts fav i = Some x"
  shows "ident x = i \<and> viewCount x = length (filter (\<lambda>j. j = i) h)
         \<and> isFavorite x = (i \<in> fav) \<and> (\<exists>p\<in>set ps. ident p = i)"
proof -
  obtain p where f: "List.find (\<lambda>p. ident p = i) ps = Some p"
    using assms by (auto simp: history_entry_of_def split: option.splits)
  then have "ident p = i \<and> p \<in> set ps"
    by (auto simp: find_Some_iff)
  then show ?thesis
    using assms f by (auto simp: history_entry_of_def)
qed

lemma historyProducts_member:
  assumes "x \<in> set (historyProducts now h ps ts fav)"
  shows "\<exists>i\<in>set h. history_entry_of now h ps ts fav i = Some x"
  using assms by (auto simp: historyProducts_def map_filter_def)

lemma count_one_if_distinct:
  "distinct h \<Longrightarrow> i \<in> set h \<Longrightarrow> length (filter (\<lambda>j. j = i) h) = 1"
  by (induction h) (auto simp: filter_empty_conv)

lemma pushes_distinct: "distinct (foldl (\<lambda>h p. handleProductClick p h) [] clicks)"
  by (induction clicks rule: rev_induct) (simp_all add: handleProductClick_distinct)

text \<open>
  Claim C10. When the history has no identifier twice, every entry of the derived list
  has view count 1: the view count of an entry is the number of occurrences of its
  identifier in the history. A click keeps a duplicate-free history duplicate-free,
  clearing gives the empty history, and so every history reached from the empty one by
  clicks is duplicate-free.
\<close>

theorem historyProducts_viewCount_one:
  "(distinct h \<longrightarrow> (\<forall>x\<in>set (historyProducts now h ps ts fav). viewCount x = 1))
   \<and> (distinct h \<longrightarrow> distinct (handleProductClick p h))
   \<and> distinct (handleClearHistory h)
   \<and> distinct (foldl (\<lambda>h p. handleProductClick p h) [] clicks)
   \<and> (\<forall>x\<in>set (historyProducts now h ps ts fav).
        viewCount x = length (filter (\<lambda>j. j = ident x) h))"
proof -
  have cnt: "viewCount x = length (filter (\<lambda>j. j = ident x) h) \<and> ident x \<in> set h"
    if mem: "x \<in> set (historyProducts now h ps ts fav)" for x
  proof -
    obtain i where i: "i \<in> set h" "history_entry_of now h ps ts fav i = Some x"
      using historyProducts_member [OF mem] by blast
    show ?thesis using history_entry_of_Some [OF i(2)] i(1) by simp
  qed
  have one: "viewCount x = 1"
    if "distinct h" "x \<in> set (historyProducts now h ps ts fav)" for x
    using cnt [OF that(2)] count_one_if_distinct [OF that(1)] by simp
  show ?thesis
    using cnt one handleProductClick_distinct [of h p] pushes_distinct [of clicks]
    by (simp add: handleClearHistory_def)
qed

theorem historyProducts_viewCount_one_witness:
  "map viewCount (historyProducts 1000 [2, 1, 5::nat]
      [\<lparr>ident = 1, name = ''Runner'', brand = ''X'', category = ''Shoes'', price = 30, rating = 4\<rparr>,
       \<lparr>ident = 2, name = ''Cap'', brand = ''Y'', category = ''Hats'', price = 12, rating = 3\<rparr>]
      (Map.empty(1 \<mapsto> 900)) {2}) = [1, 1]
   \<and> distinct (handleProductClick (1::nat) [2, 1, 5])"
  using historyProducts_viewCount_one [of "[2, 1, 5::nat]" 1000
      "[\<lparr>ident = 1, name = ''Runner'', brand = ''X'', category = ''Shoes'', price = 30, rating = 4\<rparr>,
       \<lparr>ident = 2, name = ''Cap'', brand = ''Y'', category = ''Hats'', price = 12, rating = 3\<rparr>]"
      "Map.empty(1 \<mapsto> 900)" "{2}" 1 "[]"]
  by (simp add: historyProducts_def history_entry_of_def handleProductClick_def)

subsection \<open>Removing an item\<close>

text \<open>
  Taking an identifier out of the favourites changes, in the derived list, nothing but
  the favourite flag of the entries with that identifier.
\<close>

lemma map_filter_map_option:
  "List.map_filter (\<lambda>i. map_option g (f i)) xs = map g (List.map_filter f xs)"
  by (induction xs) (auto split: option.splits)

lemma history_entry_of_unfavorite:
  "history_entry_of now h ps ts (fav - {pid}) i
   = map_option (\<lambda>x. if ident x = pid then x\<lparr>isFavorite := False\<rparr> else x)
       (history_entry_of now h ps ts fav i)"
proof (cases "List.find (\<lambda>p. ident p = i) ps")
  case None
  then show ?thesis by (simp add: history_entry_of_def)
next
  case (Some p)
  then have "ident p = i" by (auto simp: find_Some_iff)
  with Some show ?thesis by (auto simp: history_entry_of_def)
qed

lemma historyProducts_unfavorite:
  "historyProducts now h ps ts (fav - {pid})
   = map (\<lambda>x. if ident x = pid then x\<lparr>isFavorite := False\<rparr> else x)
       (historyProducts now h ps ts fav)"
proof -
  have "history_entry_of now h ps ts (fav - {pid})
        = (\<lambda>i. map_option (\<lambda>x. if ident x = pid then x\<lparr>isFavorite := False\<rparr> else x)
                 (history_entry_of now h ps ts fav i))"
    by (rule ext) (rule history_entry_of_unfavorite)
  then show ?thesis
    unfolding historyProducts_def by (simp only: map_filter_map_option)
qed

text \<open>
  Claim C9. The remove handler changes the set of favourites, from which it takes the
  identifier, and nothing else: the history, the time stamps, the catalog, the view
  mode, the sort key, the filter and the search text are as before. The click on the
  button does not reach the item's own click handler, so it does no more than the
  handler. The derived list has the same identifiers in the same order; the entries of
  the removed identifier are still there, with the favourite flag off.
\<close>

theorem handleRemoveItem_frame:
  "snd (handleRemoveItem pid e s) = s\<lparr>favorites := favorites s - {pid}\<rparr>
   \<and> history (snd (handleRemoveItem pid e s)) = history s
   \<and> timestamps (snd (handleRemoveItem pid e s)) = timestamps s
   \<and> products_h (snd (handleRemoveItem pid e s)) = products_h s
   \<and> viewMode (snd (handleRemoveItem pid e s)) = viewMode s
   \<and> sortBy (snd (handleRemoveItem pid e s)) = sortBy s
   \<and> filterBy (snd (handleRemoveItem pid e s)) = filterBy s
   \<and> searchQuery_h (snd (handleRemoveItem pid e s)) = searchQuery_h s
   \<and> favorites (snd (handleRemoveItem pid e s)) = favorites s - {pid}
   \<and> click_remove_button cb pid s = snd (handleRemoveItem pid e s)
   \<and> derived_list now (snd (handleRemoveItem pid e s))
       = map (\<lambda>x. if ident x = pid then x\<lparr>isFavorite := False\<rparr> else x) (derived_list now s)
   \<and> map ident (derived_list now (snd (handleRemoveItem pid e s)))
       = map ident (derived_list now s)
   \<and> (pid \<in> ident ` set (derived_list now s) \<longrightarrow>
        pid \<in> ident ` set (derived_list now (snd (handleRemoveItem pid e s))))"
proof -
  let ?s' = "snd (handleRemoveItem pid e s)"
  have s': "?s' = s\<lparr>favorites := favorites s - {pid}\<rparr>"
    by (simp add: handleRemoveItem_def)
  have click: "click_remove_button cb pid s = ?s'"
    by (simp add: click_remove_button_def handleRemoveItem_def)
  have d: "derived_list now ?s'
           = map (\<lambda>x. if ident x = pid then x\<lparr>isFavorite := False\<rparr> else x) (derived_list now s)"
    by (simp add: s' derived_list_def historyProducts_unfavorite)
  have ids: "map ident (derived_list now ?s') = map ident (derived_list now s)"
    by (simp add: d comp_def if_distrib cong: if_cong)
  have "set (map ident (derived_list now ?s')) = set (map ident (derived_list now s))"
    by (simp only: ids)
  then have mem: "ident ` set (derived_list now ?s') = ident ` set (derived_list now s)"
    by simp
  show ?thesis
    using click d ids mem by (simp add: s')
qed

theorem handleRemoveItem_frame_witness:
  "map ident (derived_list 1000 (snd (handleRemoveItem (2::nat) \<lparr>propagationStopped = False\<rparr>
      \<lparr>history = [2, 1], products_h =
        [\<lparr>ident = 1, name = ''Runner'', brand = ''X'', category = ''Shoes'', price = 30, rating = 4\<rparr>,
         \<lparr>ident = 2, name = ''Cap'', brand = ''Y'', category = ''Hats'', price = 12, rating = 3\<rparr>],
       viewMode = ''list'', sortBy = ''recent'', filterBy = ''all'', searchQuery_h = '''',
       favorites = {2}, timestamps = Map.empty\<rparr>))) = [2, 1]
   \<and> map isFavorite (derived_list 1000 (snd (handleRemoveItem (2::nat) \<lparr>propagationStopped = False\<rparr>
      \<lparr>history = [2, 1], products_h =
        [\<lparr>ident = 1, name = ''Runner'', brand = ''X'', category = ''Shoes'', price = 30, rating = 4\<rparr>,
         \<lparr>ident = 2, name = ''Cap'', brand = ''Y'', category = ''Hats'', price = 12, rating = 3\<rparr>],
       viewMode = ''list'', sortBy = ''recent'', filterBy = ''all'', searchQuery_h = '''',
       favorites = {2}, timestamps = Map.empty\<rparr>))) = [False, False]
   \<and> history (click_remove_button (Some handleProductClick) (2::nat)
      \<lparr>history = [2, 1], products_h =
        [\<lparr>ident = 1, name = ''Runner'', brand = ''X'', category = ''Shoes'', price = 30, rating = 4\<rparr>,
         \<lparr>ident = 2, name = ''Cap'', brand = ''Y'', category = ''Hats'', price = 12, rating = 3\<rparr>],
       viewMode = ''list'', sortBy = ''recent'', filterBy = ''all'', searchQuery_h = '''',
       favorites = {2}, timestamps = Map.empty\<rparr>) = [2, 1]"
  using handleRemoveItem_frame [of "2::nat" "\<lparr>propagationStopped = False\<rparr>"
      "\<lparr>history = [2, 1], products_h =
        [\<lparr>ident = 1, name = ''Runner'', brand = ''X'', category = ''Shoes'', price = 30, rating = 4\<rparr>,
         \<lparr>ident = 2, name = ''Cap'', brand = ''Y'', category = ''Hats'', price = 12, rating = 3\<rparr>],
       viewMode = ''list'', sortBy = ''recent'', filterBy = ''all'', searchQuery_h = '''',
       favorites = {2}, timestamps = Map.empty\<rparr>" "Some handleProductClick" 1000]
  by (simp add: derived_list_def historyProducts_def history_entry_of_def handleRemoveItem_def)

section \<open>Sorting the derived list\<close>

text \<open>
  The model of the sort is a sort: it keeps the elements with their multiplicities, and
  for a consistent comparison function its result is ordered.
\<close>

lemma set_insert_by: "set (insert_by cmp x ys) = insert x (set ys)"
  by (induction ys) auto

lemma length_insert_by: "length (insert_by cmp x ys) = Suc (length ys)"
  by (induction ys) auto

lemma set_array_sort: "set (array_sort cmp xs) = set xs"
  by (induction xs) (simp_all add: array_sort_def set_insert_by)

lemma length_array_sort: "length (array_sort cmp xs) = length xs"
  by (induction xs) (simp_all add: array_sort_def length_insert_by)

lemma count_insert_by:
  "count_list (insert_by cmp x ys) z = count_list (x # ys) z"
  by (induction ys) auto

lemma count_array_sort: "count_list (array_sort cmp xs) z = count_list xs z"
  by (induction xs) (simp_all add: array_sort_def count_insert_by)

lemma consistent_le_total:
  assumes "consistent_comparator cmp"
  shows "cmp a b \<le> 0 \<or> cmp b a \<le> 0"
  using assms unfolding consistent_comparator_def
  by (metis less_eq_real_def not_le)

lemma sorted_insert_by:
  assumes c: "consistent_comparator cmp"
    and s: "sorted_wrt (\<lambda>a b. cmp a b \<le> 0) ys"
  shows "sorted_wrt (\<lambda>a b. cmp a b \<le> 0) (insert_by cmp x ys)"
  using s
proof (induction ys)
  case Nil
  then show ?case by simp
next
  case (Cons y ys)
  have trans: "\<And>a b d. cmp a b \<le> 0 \<Longrightarrow> cmp b d \<le> 0 \<Longrightarrow> cmp a d \<le> 0"
    using c unfolding consistent_comparator_def by blast
  show ?case
  proof (cases "cmp x y \<le> 0")
    case True
    then have "\<forall>z\<in>set ys. cmp x z \<le> 0"
      using Cons.prems trans by auto
    with True Cons.prems show ?thesis by simp
  next
    case False
    then have "cmp y x \<le> 0" using consistent_le_total [OF c, of x y] by simp
    with False Cons show ?thesis by (auto simp: set_insert_by)
  qed
qed

lemma sorted_array_sort:
  "consistent_comparator cmp \<Longrightarrow> sorted_wrt (\<lambda>a b. cmp a b \<le> 0) (array_sort cmp xs)"
  by (induction xs) (simp_all add: array_sort_def sorted_insert_by)

text \<open>
  Stability: elements of a class whose members never compare greater than one another
  come out in the order in which they went in.
\<close>

lemma filter_insert_by_neg:
  "\<not> P x \<Longrightarrow> filter P (insert_by cmp x ys) = filter P ys"
  by (induction ys) simp_all

lemma filter_insert_by_pos:
  "P x \<Longrightarrow> \<forall>y\<in>set ys. P y \<longrightarrow> cmp x y \<le> 0 \<Longrightarrow>
   filter P (insert_by cmp x ys) = x # filter P ys"
  by (induction ys) auto

lemma array_sort_stable:
  assumes "\<And>x y. P x \<Longrightarrow> P y \<Longrightarrow> cmp x y \<le> 0"
  shows "filter P (array_sort cmp xs) = filter P xs"
proof (induction xs)
  case Nil
  then show ?case by (simp add: array_sort_def)
next
  case (Cons x xs)
  have step: "array_sort cmp (x # xs) = insert_by cmp x (array_sort cmp xs)"
    by (simp add: array_sort_def)
  show ?case
  proof (cases "P x")
    case True
    then have "filter P (insert_by cmp x (array_sort cmp xs)) = x # filter P (array_sort cmp xs)"
      using assms by (intro filter_insert_by_pos) auto
    with True Cons.IH step show ?thesis by simp
  next
    case False
    with Cons.IH step show ?thesis by (simp add: filter_insert_by_neg)
  qed
qed

lemma consistent_equal_class:
  assumes c: "consistent_comparator cmp" and a: "cmp a k = 0" and b: "cmp b k = 0"
  shows "cmp a b = 0"
proof -
  have anti: "\<And>u v. cmp u v < 0 \<longleftrightarrow> 0 < cmp v u"
    and trans: "\<And>u v w. cmp u v \<le> 0 \<Longrightarrow> cmp v w \<le> 0 \<Longrightarrow> cmp u w \<le> 0"
    using c unfolding consistent_comparator_def by blast+
  have kb: "cmp k b = 0" using anti [of k b] anti [of b k] b by linarith
  have ka: "cmp k a = 0" using anti [of k a] anti [of a k] a by linarith
  have "cmp a b \<le> 0" using trans [of a k b] a kb by simp
  moreover have "cmp b a \<le> 0" using trans [of b k a] b ka by simp
  ultimately show ?thesis using anti [of a b] anti [of b a] by linarith
qed

text \<open>
  Claim C7. Sorting the derived list by name is stable: for every list, search text and
  filter, the entries whose names compare equal to a given name are, after the sort, in
  the order they had before it; so are the entries with one and the same name. The
  comparison of names is taken to be consistent.
\<close>

theorem processedProducts_name_stable:
  assumes "consistent_comparator localeCompare"
  shows "filter (\<lambda>e. localeCompare (name e) k = 0)
           (processedProducts localeCompare entries q fb ''name'')
         = filter (\<lambda>e. localeCompare (name e) k = 0)
             (filterHistory fb (searchHistory q entries))
         \<and> filter (\<lambda>e. name e = k) (processedProducts localeCompare entries q fb ''name'')
         = filter (\<lambda>e. name e = k) (filterHistory fb (searchHistory q entries))"
proof -
  have cmp: "compareEntries localeCompare ''name'' = (\<lambda>a b. localeCompare (name a) (name b))"
    by (intro ext) (simp add: compareEntries_def)
  have refl: "localeCompare k k = 0"
    using assms unfolding consistent_comparator_def by blast
  have 1: "localeCompare (name x) (name y) \<le> 0"
    if "localeCompare (name x) k = 0" "localeCompare (name y) k = 0" for x y :: "'a history_entry"
    using consistent_equal_class [OF assms that] by simp
  have 2: "localeCompare (name x) (name y) \<le> 0"
    if "name x = k" "name y = k" for x y :: "'a history_entry"
    using that refl by simp
  show ?thesis
    unfolding processedProducts_def cmp
    using array_sort_stable [of "\<lambda>e. localeCompare (name e) k = 0"
            "\<lambda>a b. localeCompare (name a) (name b)"] 1
          array_sort_stable [of "\<lambda>e. name e = k" "\<lambda>a b. localeCompare (name a) (name b)"] 2
    by blast
qed

theorem processedProducts_name_stable_witness:
  "map ident (processedProducts (\<lambda>a b. real (length a) - real (length b))
      [\<lparr>ident = 1::nat, name = ''Runner'', brand = ''X'', category = ''Shoes'', price = 30,
         rating = 4, viewedAt = 30, isFavorite = False, viewCount = 1\<rparr>,
       \<lparr>ident = 2, name = ''Cap'', brand = ''Y'', category = ''Hats'', price = 12,
         rating = 3, viewedAt = 20, isFavorite = False, viewCount = 1\<rparr>,
       \<lparr>ident = 3, name = ''Runner'', brand = ''Z'', category = ''Shoes'', price = 45,
         rating = 5, viewedAt = 10, isFavorite = True, viewCount = 1\<rparr>]
      '''' ''all'' ''name'') = [2, 1, 3]
   \<and> map ident (filter (\<lambda>e. name e = ''Runner'')
      (processedProducts (\<lambda>a b. real (length a) - real (length b))
      [\<lparr>ident = 1::nat, name = ''Runner'', brand = ''X'', category = ''Shoes'', price = 30,
         rating = 4, viewedAt = 30, isFavorite = False, viewCount = 1\<rparr>,
       \<lparr>ident = 2, name = ''Cap'', brand = ''Y'', category = ''Hats'', price = 12,
         rating = 3, viewedAt = 20, isFavorite = False, viewCount = 1\<rparr>,
       \<lparr>ident = 3, name = ''Runner'', brand = ''Z'', category = ''Shoes'', price = 45,
         rating = 5, viewedAt = 10, isFavorite = True, viewCount = 1\<rparr>]
      '''' ''all'' ''name'')) = [1, 3]"
proof -
  let ?cmp = "\<lambda>a b :: string. real (length a) - real (length b)"
  let ?es = "[\<lparr>ident = 1::nat, name = ''Runner'', brand = ''X'', category = ''Shoes'', price = 30,
         rating = 4, viewedAt = 30, isFavorite = False, viewCount = 1\<rparr>,
       \<lparr>ident = 2, name = ''Cap'', brand = ''Y'', category = ''Hats'', price = 12,
         rating = 3, viewedAt = 20, isFavorite = False, viewCount = 1\<rparr>,
       \<lparr>ident = 3, name = ''Runner'', brand = ''Z'', category = ''Shoes'', price = 45,
         rating = 5, viewedAt = 10, isFavorite = True, viewCount = 1\<rparr>]"
  have c: "consistent_comparator ?cmp"
    by (auto simp: consistent_comparator_def)
  have "filter (\<lambda>e. name e = ''Runner'') (processedProducts ?cmp ?es '''' ''all'' ''name'')
        = filter (\<lambda>e. name e = ''Runner'') (filterHistory ''all'' (searchHistory '''' ?es))"
    using processedProducts_name_stable [OF c, of "''Runner''" ?es "''''" "''all''"]
    by (rule conjunct2)
  then have dup: "map ident (filter (\<lambda>e. name e = ''Runner'')
                    (processedProducts ?cmp ?es '''' ''all'' ''name'')) = [1, 3]"
    by (simp add: filterHistory_def searchHistory_def)
  have all: "map ident (processedProducts ?cmp ?es '''' ''all'' ''name'') = [2, 1, 3]"
    by (simp add: processedProducts_def filterHistory_def searchHistory_def array_sort_def
          compareEntries_def)
  from all dup show ?thesis by (rule conjI)
qed

section \<open>Insights\<close>

text \<open>
  The counting object after the whole list: its keys are the different names other than
  \<^verbatim>\<open>__proto__\<close>, in the order of their first appearance; when none of the names is
  inherited by a plain object, each key holds the number of its occurrences.
\<close>

lemma bump_keys:
  "map fst (bump acc k) = (if k \<in> set (map fst acc) then map fst acc else map fst acc @ [k])"
  by (induction acc) force+

lemma bump_map_of:
  "map_of (bump acc k)
   = (map_of acc)(k \<mapsto> (case map_of acc k of
                          None \<Rightarrow> if k \<in> set function_members then Native k 1 else Num 1
                        | Some v \<Rightarrow> increment v))"
  by (induction acc) (auto simp: fun_eq_iff)

lemma counts_keys:
  "map fst (foldl count_into [] ks) = rev (remdups (rev (filter (\<lambda>k. k \<noteq> ''__proto__'') ks)))"
  by (induction ks rule: rev_induct) (auto simp: bump_keys count_into_def)

lemma counts_distinct: "distinct (map fst (foldl count_into [] ks))"
  by (simp add: counts_keys)

lemma counts_key_set: "set (map fst (foldl count_into [] ks)) = set ks - {''__proto__''}"
  by (auto simp: counts_keys)

lemma counts_map_of:
  assumes "\<forall>k\<in>set ks. \<not> inherited_name k"
  shows "map_of (foldl count_into [] ks) k
         = (if k \<in> set ks then Some (Num (count_list ks k)) else None)"
  using assms
proof (induction ks arbitrary: k rule: rev_induct)
  case Nil
  then show ?case by simp
next
  case (snoc x xs)
  then have x: "x \<noteq> ''__proto__''" "x \<notin> set function_members"
    by (simp_all add: inherited_name_def)
  have IH: "map_of (foldl count_into [] xs) k
            = (if k \<in> set xs then Some (Num (count_list xs k)) else None)" for k
    using snoc.IH snoc.prems by simp
  have "count_into (foldl count_into [] xs) x = bump (foldl count_into [] xs) x"
    using x(1) by (simp only: count_into_def if_False)
  then have step: "foldl count_into [] (xs @ [x]) = bump (foldl count_into [] xs) x"
    by simp
  show ?case
    unfolding step bump_map_of using x(2) by (auto simp: IH)
qed

lemma counts_member:
  assumes "\<forall>k\<in>set ks. \<not> inherited_name k"
  shows "(k, v) \<in> set (foldl count_into [] ks) \<longleftrightarrow> k \<in> set ks \<and> v = Num (count_list ks k)"
proof -
  have "(k, v) \<in> set (foldl count_into [] ks) \<longleftrightarrow> map_of (foldl count_into [] ks) k = Some v"
    using counts_distinct [of ks] by simp
  then show ?thesis by (auto simp: counts_map_of [OF assms])
qed

lemma categoryCount_counts: "categoryCount entries = foldl count_into [] (map category entries)"
  by (simp add: categoryCount_def foldl_map)

lemma brandCount_counts: "brandCount entries = foldl count_into [] (map brand entries)"
  by (simp add: brandCount_def foldl_map)

lemma set_Object_entries: "set (Object_entries obj) = set obj"
  by (auto simp: Object_entries_def)

lemma Object_entries_no_index:
  assumes "\<not> list_ex is_array_index (map fst obj)"
  shows "Object_entries obj = obj"
proof -
  have n: "\<forall>kv\<in>set obj. \<not> is_array_index (fst kv)"
    using assms by (auto simp: list_ex_iff)
  then have "filter (\<lambda>kv. is_array_index (fst kv)) obj = []"
    by (simp add: filter_empty_conv)
  moreover have "filter (\<lambda>kv. \<not> is_array_index (fst kv)) obj = obj"
    using n by (simp add: filter_id_conv)
  ultimately show ?thesis by (simp add: Object_entries_def)
qed

text \<open>
  The reduction with \<^const>\<open>pick_top\<close> keeps the accumulator only when its value is
  strictly greater, so over counts it ends on the last entry of greatest count.
\<close>

lemma value_gt_Num:
  "is_Num v \<Longrightarrow> is_Num w \<Longrightarrow> value_gt v w = (the_num v > the_num w)"
  by (cases v; cases w) simp_all

lemma foldl_pick_top:
  assumes "\<forall>x\<in>set (a # es). is_Num (snd x)"
  shows "\<exists>pre post. a # es = pre @ foldl pick_top a es # post
     \<and> (\<forall>x\<in>set pre. the_num (snd x) \<le> the_num (snd (foldl pick_top a es)))
     \<and> (\<forall>x\<in>set post. the_num (snd x) < the_num (snd (foldl pick_top a es)))"
  using assms
proof (induction es rule: rev_induct)
  case Nil
  have "[a] = [] @ a # []" by simp
  then show ?case by fastforce
next
  case (snoc x es)
  let ?t = "foldl pick_top a es"
  have nums: "\<forall>y\<in>set (a # es). is_Num (snd y)" and nx: "is_Num (snd x)"
    using snoc.prems by simp_all
  obtain pre post where s: "a # es = pre @ ?t # post"
    and p: "\<forall>y\<in>set pre. the_num (snd y) \<le> the_num (snd ?t)"
    and q: "\<forall>y\<in>set post. the_num (snd y) < the_num (snd ?t)"
    using snoc.IH [OF nums] by blast
  have "set (a # es) = set (pre @ ?t # post)" by (simp only: s)
  then have sets: "set (a # es) = set pre \<union> insert ?t (set post)" by simp
  have nt: "is_Num (snd ?t)" using nums unfolding sets by simp
  have gt: "value_gt (snd ?t) (snd x) = (the_num (snd ?t) > the_num (snd x))"
    using nt nx by (rule value_gt_Num)
  show ?case
  proof (cases "the_num (snd ?t) > the_num (snd x)")
    case True
    then have t: "foldl pick_top a (es @ [x]) = ?t" by (simp add: pick_top_def gt)
    have "a # es @ [x] = pre @ ?t # (post @ [x])" using s by simp
    moreover have "\<forall>y\<in>set (post @ [x]). the_num (snd y) < the_num (snd ?t)"
      using q True by simp
    ultimately show ?thesis using p unfolding t by blast
  next
    case False
    then have t: "foldl pick_top a (es @ [x]) = x" by (simp add: pick_top_def gt)
    have e: "a # es @ [x] = (a # es) @ x # []" by simp
    have le: "\<forall>y\<in>set (a # es). the_num (snd y) \<le> the_num (snd x)"
    proof
      fix y assume "y \<in> set (a # es)"
      then have "y \<in> set pre \<or> y = ?t \<or> y \<in> set post" unfolding sets by blast
      then have "the_num (snd y) \<le> the_num (snd ?t)" using p q by auto
      then show "the_num (snd y) \<le> the_num (snd x)" using False by simp
    qed
    have "\<forall>y\<in>set []. the_num (snd y) < the_num (snd x)" by simp
    with e le show ?thesis unfolding t by blast
  qed
qed

lemma top_of_counts:
  assumes ne: "ks \<noteq> []" and plain: "\<forall>k\<in>set ks. \<not> inherited_name k"
  shows "\<exists>c pre post.
           map_option fst (reduce_no_init pick_top (Object_entries (foldl count_into [] ks)))
             = Some c
           \<and> c \<in> set ks
           \<and> (\<forall>d. count_list ks d \<le> count_list ks c)
           \<and> map fst (Object_entries (foldl count_into [] ks)) = pre @ c # post
           \<and> (\<forall>d\<in>set post. count_list ks d < count_list ks c)"
proof -
  let ?obj = "Object_entries (foldl count_into [] ks)"
  have mem: "(k, v) \<in> set ?obj \<longleftrightarrow> k \<in> set ks \<and> v = Num (count_list ks k)" for k v
    by (simp add: set_Object_entries counts_member [OF plain])
  have nums: "\<forall>x\<in>set ?obj. is_Num (snd x)"
  proof
    fix x assume "x \<in> set ?obj"
    then have "(fst x, snd x) \<in> set ?obj" by simp
    then have "snd x = Num (count_list ks (fst x))" by (simp only: mem)
    then show "is_Num (snd x)" by simp
  qed
  have "(hd ks, Num (count_list ks (hd ks))) \<in> set ?obj"
    using ne by (simp add: mem)
  then obtain a es where obj: "?obj = a # es"
    by (cases ?obj) auto
  define t where "t = foldl pick_top a es"
  have "\<forall>x\<in>set (a # es). is_Num (snd x)"
    using nums by (simp only: obj)
  from foldl_pick_top [OF this]
  obtain pre post where split: "a # es = pre @ t # post"
    and le: "\<forall>x\<in>set pre. the_num (snd x) \<le> the_num (snd t)"
    and less: "\<forall>x\<in>set post. the_num (snd x) < the_num (snd t)"
    unfolding t_def by blast
  have "set (a # es) = set (pre @ t # post)"
    by (simp only: split)
  then have sets: "set ?obj = set pre \<union> insert t (set post)"
    by (simp add: obj)
  have all_le: "the_num (snd x) \<le> the_num (snd t)" if x: "x \<in> set ?obj" for x
    using x le less unfolding sets by auto
  have "t \<in> set ?obj" unfolding sets by simp
  then have "(fst t, snd t) \<in> set ?obj" by simp
  then have t: "fst t \<in> set ks" "snd t = Num (count_list ks (fst t))"
    by (simp_all only: mem)
  have top: "map_option fst (reduce_no_init pick_top ?obj) = Some (fst t)"
    by (simp add: obj t_def)
  have max: "count_list ks d \<le> count_list ks (fst t)" for d
  proof (cases "d \<in> set ks")
    case True
    then have "(d, Num (count_list ks d)) \<in> set ?obj" by (simp add: mem)
    from all_le [OF this] show ?thesis using t(2) by simp
  next
    case False
    then show ?thesis by (simp add: count_list_0_iff)
  qed
  have keys: "map fst ?obj = map fst pre @ fst t # map fst post"
    unfolding obj split by simp
  have after: "count_list ks d < count_list ks (fst t)" if dm: "d \<in> set (map fst post)" for d
  proof -
    obtain v where y: "(d, v) \<in> set post" using dm by auto
    then have "(d, v) \<in> set ?obj" unfolding sets by simp
    then have "v = Num (count_list ks d)" by (simp only: mem)
    then show ?thesis using less y t(2) by auto
  qed
  show ?thesis
    by (rule exI [where x = "fst t"], rule exI [where x = "map fst pre"],
        rule exI [where x = "map fst post"])
       (use top t(1) max keys after in simp)
qed

lemma topCategory_ex:
  assumes "entries \<noteq> []" and "\<forall>p\<in>set entries. \<not> inherited_name (category p)"
  shows "\<exists>c pre post. topCategory entries = Some c
           \<and> c \<in> category ` set entries
           \<and> (\<forall>d. count_list (map category entries) d \<le> count_list (map category entries) c)
           \<and> map fst (Object_entries (categoryCount entries)) = pre @ c # post
           \<and> (\<forall>d\<in>set post. count_list (map category entries) d
                               < count_list (map category entries) c)"
proof -
  have "map category entries \<noteq> []" using assms(1) by simp
  moreover have "\<forall>k\<in>set (map category entries). \<not> inherited_name k"
    using assms(2) by simp
  ultimately show ?thesis
    using top_of_counts [of "map category entries"]
    unfolding topCategory_def categoryCount_counts by simp
qed

lemma topBrand_ex:
  assumes "\<exists>p\<in>set entries. brand p \<noteq> ''__proto__''"
  shows "\<exists>b. topBrand entries = Some b"
proof -
  obtain p where "p \<in> set entries" "brand p \<noteq> ''__proto__''"
    using assms by blast
  then have "brand p \<in> set (map brand entries) - {''__proto__''}" by simp
  then have "brand p \<in> set (map fst (brandCount entries))"
    by (simp only: brandCount_counts counts_key_set)
  then have "set (brandCount entries) \<noteq> {}" by auto
  then have "set (Object_entries (brandCount entries)) \<noteq> {}"
    by (simp add: set_Object_entries)
  then obtain a es where "Object_entries (brandCount entries) = a # es"
    by (cases "Object_entries (brandCount entries)") auto
  then show ?thesis by (simp add: topBrand_def)
qed

lemma topCategory_two_of_three:
  assumes same: "category p1 = category p2"
    and plain: "\<not> inherited_name (category p1)" "\<not> inherited_name (category p3)"
  shows "topCategory [p1, p2, p3] = Some (category p1)"
proof -
  have "\<forall>p\<in>set [p1, p2, p3]. \<not> inherited_name (category p)"
    using same plain by simp
  then obtain c where c: "topCategory [p1, p2, p3] = Some c"
    and m: "c \<in> category ` set [p1, p2, p3]"
    and mx: "\<forall>d. count_list (map category [p1, p2, p3]) d
                  \<le> count_list (map category [p1, p2, p3]) c"
    using topCategory_ex [of "[p1, p2, p3]"] by auto
  have "c = category p1"
  proof (rule ccontr)
    assume n: "c \<noteq> category p1"
    then have "count_list (map category [p1, p2, p3]) c \<le> 1"
      using same by simp
    moreover have "2 \<le> count_list (map category [p1, p2, p3]) (category p1)"
      using same by simp
    moreover have "count_list (map category [p1, p2, p3]) (category p1)
                   \<le> count_list (map category [p1, p2, p3]) c"
      using mx by (rule spec)
    ultimately show False by linarith
  qed
  with c show ?thesis by simp
qed

lemma categoryCount_order:
  assumes plain: "\<forall>p\<in>set entries. \<not> inherited_name (category p)"
    and noidx: "\<not> list_ex is_array_index (map category entries)"
  shows "map fst (Object_entries (categoryCount entries))
         = rev (remdups (rev (map category entries)))"
proof -
  have "\<forall>k\<in>set (map category entries). k \<noteq> ''__proto__''"
    using plain by (auto simp: inherited_name_def)
  then have f: "filter (\<lambda>k. k \<noteq> ''__proto__'') (map category entries) = map category entries"
    by (simp only: filter_id_conv)
  have keys: "map fst (categoryCount entries) = rev (remdups (rev (map category entries)))"
    by (simp only: categoryCount_counts counts_keys f)
  then have "set (map fst (categoryCount entries)) = set (map category entries)"
    by simp
  then have "\<not> list_ex is_array_index (map fst (categoryCount entries))"
    using noidx by (simp add: list_ex_iff)
  then have "Object_entries (categoryCount entries) = categoryCount entries"
    by (rule Object_entries_no_index)
  then show ?thesis by (simp only: keys)
qed

text \<open>
  A list whose only category is \<^verbatim>\<open>__proto__\<close> leaves the counting object empty, and the
  reduction throws.
\<close>

lemma insights_only_proto:
  "category p = ''__proto__'' \<Longrightarrow> insights host [p] = None"
  by (simp add: insights_def topCategory_def categoryCount_def count_into_def
        Object_entries_def)

text \<open>
  Claim C6, as the component has it. For the empty derived list there are no insights.
  For a non-empty list none of whose categories is a name that a plain object inherits,
  the reported category occurs in the list with a count that no category exceeds; ties
  go to the category that is last in the enumeration of the counting object: every
  category after it there has a strictly smaller count. The four lines, with that
  category in the first, are produced when some brand is not \<^verbatim>\<open>__proto__\<close>. When
  moreover no category is an array index, the enumeration is the order of first
  appearance, so the tie goes to the category met last. Three entries whose first two
  categories agree report that category.
\<close>

theorem insights_most_viewed_category:
  "insights host [] = Some []
   \<and> (entries \<noteq> [] \<and> (\<forall>p\<in>set entries. \<not> inherited_name (category p)) \<longrightarrow>
        (\<exists>c pre post.
           topCategory entries = Some c
           \<and> c \<in> category ` set entries
           \<and> (\<forall>d. count_list (map category entries) d \<le> count_list (map category entries) c)
           \<and> map fst (Object_entries (categoryCount entries)) = pre @ c # post
           \<and> (\<forall>d\<in>set post. count_list (map category entries) d
                               < count_list (map category entries) c)
           \<and> ((\<exists>p\<in>set entries. brand p \<noteq> ''__proto__'') \<longrightarrow>
                (\<exists>b. topBrand entries = Some b
                   \<and> insights host entries
                       = Some [''Most viewed category: '' @ c,
                               ''Favorite brand: '' @ b,
                               ''Average price: $'' @ toFixed host (avgPrice host entries) 2,
                               ''Average rating: '' @ toFixed host (avgRating host entries) 1
                                 @ ''/5'']))))
   \<and> ((\<forall>p\<in>set entries. \<not> inherited_name (category p))
        \<and> \<not> list_ex is_array_index (map category entries) \<longrightarrow>
        map fst (Object_entries (categoryCount entries))
          = rev (remdups (rev (map category entries))))
   \<and> (category p1 = category p2 \<and> \<not> inherited_name (category p1)
        \<and> \<not> inherited_name (category p3) \<longrightarrow>
        topCategory [p1, p2, p3] = Some (category p1))"
proof (intro conjI impI)
  show "insights host [] = Some []"
    by (simp add: insights_def)
next
  assume h: "entries \<noteq> [] \<and> (\<forall>p\<in>set entries. \<not> inherited_name (category p))"
  then have ne: "entries \<noteq> []" and plain: "\<forall>p\<in>set entries. \<not> inherited_name (category p)"
    by simp_all
  obtain c pre post where c: "topCategory entries = Some c"
    and r1: "c \<in> category ` set entries"
    and r2: "\<forall>d. count_list (map category entries) d \<le> count_list (map category entries) c"
    and r3: "map fst (Object_entries (categoryCount entries)) = pre @ c # post"
    and r4: "\<forall>d\<in>set post. count_list (map category entries) d
                               < count_list (map category entries) c"
    using topCategory_ex [OF ne plain] by blast
  have lines: "\<exists>b. topBrand entries = Some b
                 \<and> insights host entries
                     = Some [''Most viewed category: '' @ c,
                             ''Favorite brand: '' @ b,
                             ''Average price: $'' @ toFixed host (avgPrice host entries) 2,
                             ''Average rating: '' @ toFixed host (avgRating host entries) 1
                               @ ''/5'']"
    if br: "\<exists>p\<in>set entries. brand p \<noteq> ''__proto__''"
  proof -
    obtain b where b: "topBrand entries = Some b"
      using topBrand_ex [OF br] by blast
    have "insights host entries
          = Some [''Most viewed category: '' @ c,
                  ''Favorite brand: '' @ b,
                  ''Average price: $'' @ toFixed host (avgPrice host entries) 2,
                  ''Average rating: '' @ toFixed host (avgRating host entries) 1 @ ''/5'']"
      using ne c b by (simp add: insights_def)
    with b show ?thesis by (intro exI conjI)
  qed
  show "\<exists>c pre post.
           topCategory entries = Some c
           \<and> c \<in> category ` set entries
           \<and> (\<forall>d. count_list (map category entries) d \<le> count_list (map category entries) c)
           \<and> map fst (Object_entries (categoryCount entries)) = pre @ c # post
           \<and> (\<forall>d\<in>set post. count_list (map category entries) d
                               < count_list (map category entries) c)
           \<and> ((\<exists>p\<in>set entries. brand p \<noteq> ''__proto__'') \<longrightarrow>
                (\<exists>b. topBrand entries = Some b
                   \<and> insights host entries
                       = Some [''Most viewed category: '' @ c,
                               ''Favorite brand: '' @ b,
                               ''Average price: $'' @ toFixed host (avgPrice host entries) 2,
                               ''Average rating: '' @ toFixed host (avgRating host entries) 1
                                 @ ''/5'']))"
    by (rule exI [where x = c], rule exI [where x = pre], rule exI [where x = post])
       (use c r1 r2 r3 r4 lines in simp)
next
  assume "(\<forall>p\<in>set entries. \<not> inherited_name (category p))
          \<and> \<not> list_ex is_array_index (map category entries)"
  then show "map fst (Object_entries (categoryCount entries))
          = rev (remdups (rev (map category entries)))"
    using categoryCount_order [of entries] by blast
next
  assume "category p1 = category p2 \<and> \<not> inherited_name (category p1)
          \<and> \<not> inherited_name (category p3)"
  then show "topCategory [p1, p2, p3] = Some (category p1)"
    using topCategory_two_of_three [of p1 p2 p3] by blast
qed

theorem insights_most_viewed_category_witness:
  "insights \<lparr>of_value = id, plus_d = plus, divide_d = divide, toFixed = (\<lambda>x n. ''n'')\<rparr>
     [\<lparr>ident = 1::nat, name = ''Runner'', brand = ''X'', category = ''Shoes'', price = 30, rating = 4\<rparr>,
      \<lparr>ident = 2, name = ''Boot'', brand = ''Y'', category = ''Shoes'', price = 80, rating = 5\<rparr>,
      \<lparr>ident = 3, name = ''Cap'', brand = ''Y'', category = ''Hats'', price = 12, rating = 3\<rparr>]
   = Some [''Most viewed category: Shoes'', ''Favorite brand: Y'',
           ''Average price: $n'', ''Average rating: n/5'']
   \<and> map fst (Object_entries (categoryCount
     [\<lparr>ident = 1::nat, name = ''Runner'', brand = ''X'', category = ''Shoes'', price = 30, rating = 4\<rparr>,
      \<lparr>ident = 2, name = ''Boot'', brand = ''Y'', category = ''Shoes'', price = 80, rating = 5\<rparr>,
      \<lparr>ident = 3, name = ''Cap'', brand = ''Y'', category = ''Hats'', price = 12, rating = 3\<rparr>]))
     = [''Shoes'', ''Hats'']"
proof -
  let ?a = "\<lparr>ident = 1::nat, name = ''Runner'', brand = ''X'', category = ''Shoes'',
             price = 30, rating = 4\<rparr>"
  let ?b = "\<lparr>ident = 2::nat, name = ''Boot'', brand = ''Y'', category = ''Shoes'',
             price = 80, rating = 5\<rparr>"
  let ?c = "\<lparr>ident = 3::nat, name = ''Cap'', brand = ''Y'', category = ''Hats'',
             price = 12, rating = 3\<rparr>"
  let ?host = "\<lparr>of_value = id, plus_d = plus, divide_d = divide,
                toFixed = (\<lambda>x n. ''n'')\<rparr> :: real number_host"
  note t = insights_most_viewed_category [of ?host "[?a, ?b, ?c]" ?a ?b ?c]
  have plain: "\<not> inherited_name ''Shoes'' \<and> \<not> inherited_name ''Hats''"
    by (simp add: inherited_name_def function_members_def)
  have same: "category ?a = category ?b \<and> \<not> inherited_name (category ?a)
              \<and> \<not> inherited_name (category ?c)"
    using plain by simp
  have noidx: "(\<forall>p\<in>set [?a, ?b, ?c]. \<not> inherited_name (category p))
               \<and> \<not> list_ex is_array_index (map category [?a, ?b, ?c])"
    using plain by (simp add: is_array_index_def is_digit_def)
  have top: "topCategory [?a, ?b, ?c] = Some ''Shoes''"
    using t [THEN conjunct2, THEN conjunct2, THEN conjunct2, THEN mp, OF same] by simp
  have keys: "map fst (Object_entries (categoryCount [?a, ?b, ?c])) = [''Shoes'', ''Hats'']"
    using t [THEN conjunct2, THEN conjunct2, THEN conjunct1, THEN mp, OF noidx] by simp
  have brand: "topBrand [?a, ?b, ?c] = Some ''Y''"
    by (simp add: topBrand_def brandCount_def count_into_def function_members_def
          Object_entries_def is_array_index_def is_digit_def pick_top_def)
  have "insights ?host [?a, ?b, ?c]
        = Some [''Most viewed category: Shoes'', ''Favorite brand: Y'',
                ''Average price: $n'', ''Average rating: n/5'']"
    using top brand by (simp add: insights_def)
  with keys show ?thesis by simp
qed

text \<open>
  The claim as stated breaks ties in favour of the category met first: for the
  categories Shoes, Hats, one entry each, that would be Shoes, and the component reports
  Hats. It also promises a category of greatest count for every list: for the categories
  Shoes, Shoes, constructor the component reports constructor, whose stored value is a
  string that no count exceeds.
\<close>

theorem insights_tie_counterexample:
  "map category
     [\<lparr>ident = 1::nat, name = ''Runner'', brand = ''X'', category = ''Shoes'', price = 30, rating = 4\<rparr>,
      \<lparr>ident = 3, name = ''Cap'', brand = ''Y'', category = ''Hats'', price = 12, rating = 3\<rparr>]
     = [''Shoes'', ''Hats'']
   \<and> topCategory
     [\<lparr>ident = 1::nat, name = ''Runner'', brand = ''X'', category = ''Shoes'', price = 30, rating = 4\<rparr>,
      \<lparr>ident = 3, name = ''Cap'', brand = ''Y'', category = ''Hats'', price = 12, rating = 3\<rparr>]
     = Some ''Hats''
   \<and> topCategory
     [\<lparr>ident = 1::nat, name = ''Runner'', brand = ''X'', category = ''Shoes'', price = 30, rating = 4\<rparr>,
      \<lparr>ident = 2, name = ''Boot'', brand = ''Y'', category = ''Shoes'', price = 80, rating = 5\<rparr>,
      \<lparr>ident = 4, name = ''Kit'', brand = ''Z'', category = ''constructor'', price = 5, rating = 2\<rparr>]
     = Some ''constructor''"
  by (simp add: topCategory_def categoryCount_def count_into_def function_members_def
        Object_entries_def is_array_index_def is_digit_def pick_top_def)

text \<open>Two keys that both name inherited functions are compared by their texts.\<close>

lemma topCategory_two_functions:
  "topCategory
     [\<lparr>ident = 1::nat, name = ''A'', brand = ''X'', category = ''valueOf'', price = 30, rating = 4\<rparr>,
      \<lparr>ident = 2, name = ''B'', brand = ''Y'', category = ''constructor'', price = 80, rating = 5\<rparr>]
     = Some ''valueOf''
   \<and> topCategory
     [\<lparr>ident = 1::nat, name = ''A'', brand = ''X'', category = ''constructor'', price = 30, rating = 4\<rparr>,
      \<lparr>ident = 2, name = ''B'', brand = ''Y'', category = ''toString'', price = 80, rating = 5\<rparr>]
     = Some ''toString''"
  by (simp add: topCategory_def categoryCount_def count_into_def function_members_def
        Object_entries_def is_array_index_def is_digit_def pick_top_def native_text_def)

end
